theory Spec2Isabelle
  imports Complex_Main
begin

section \<open>Numeric conventions\<close>

text \<open>
  The detector (\<^verbatim>\<open>scripts/real-ml-processor.py\<close>, class \<^verbatim>\<open>RealExoplanetDetector\<close>)
  computes on numpy \<^verbatim>\<open>float64\<close> arrays. Finite values are modelled as \<open>real\<close> with exact
  arithmetic: rounding error of finite operations is not modelled, except in the
  section on phase folding in binary64, where rounding decides whether the phase
  reaches the end of its interval.
  What IEEE arithmetic does where real arithmetic is undefined is written out: a numpy
  division by zero does not raise, it yields an infinity or NaN, so every quotient
  whose divisor can be zero has type \<open>npfloat\<close>.

  Two numpy arrays that the code indexes in parallel (time and flux, phase and flux,
  flux and model flux) are one list of pairs.
\<close>

datatype npfloat = Finite real | PosInf | NegInf | NaN

text \<open>numpy true division of finite operands; the divisor zero is \<open>+0.0\<close>.\<close>

definition np_div :: "real \<Rightarrow> real \<Rightarrow> npfloat" where
  "np_div a b =
     (if b \<noteq> 0 then Finite (a / b)
      else if a > 0 then PosInf
      else if a < 0 then NegInf
      else NaN)"

text \<open>
  \<^verbatim>\<open>np.mean\<close>, \<^verbatim>\<open>np.var\<close> and \<^verbatim>\<open>np.std\<close> (population variance and standard deviation)
  of a non-empty array.
\<close>

definition np_mean :: "real list \<Rightarrow> real" where
  "np_mean xs = sum_list xs / real (length xs)"

definition np_var :: "real list \<Rightarrow> real" where
  "np_var xs = np_mean (map (\<lambda>x. (x - np_mean xs)\<^sup>2) xs)"

definition np_std :: "real list \<Rightarrow> real" where
  "np_std xs = sqrt (np_var xs)"

section \<open>BLS power of one (duration, phase) combination\<close>

text \<open>
  \<^verbatim>\<open>_calculate_bls_power(phase, flux, t0_frac, duration_frac)\<close>. The means of the two
  groups are computed before the guards, as in the source; they are only used after
  the guards have established that both groups are non-empty.
\<close>

definition transit_mask :: "real \<Rightarrow> real \<Rightarrow> real \<times> real \<Rightarrow> bool" where
  "transit_mask t0_frac duration_frac = (\<lambda>(phase, flux). \<bar>phase - t0_frac\<bar> < duration_frac / 2)"

definition flux_in_transit :: "(real \<times> real) list \<Rightarrow> real \<Rightarrow> real \<Rightarrow> real list" where
  "flux_in_transit pf t0_frac duration_frac =
     map snd (filter (transit_mask t0_frac duration_frac) pf)"

definition flux_out_transit :: "(real \<times> real) list \<Rightarrow> real \<Rightarrow> real \<Rightarrow> real list" where
  "flux_out_transit pf t0_frac duration_frac =
     map snd (filter (\<lambda>p. \<not> transit_mask t0_frac duration_frac p) pf)"

definition calculate_bls_power :: "(real \<times> real) list \<Rightarrow> real \<Rightarrow> real \<Rightarrow> real" where
  "calculate_bls_power pf t0_frac duration_frac =
     (let ins = flux_in_transit pf t0_frac duration_frac;
          outs = flux_out_transit pf t0_frac duration_frac
      in if length ins < 3 then 0
         else
           let flux_in = np_mean ins;
               flux_out = np_mean outs;
               n_in = length ins;
               n_out = length outs
           in if n_in = 0 \<or> n_out = 0 then 0
              else
                let sigma_out = np_std outs
                in if sigma_out = 0 then 0
                   else max 0 ((flux_out - flux_in)
                                 * sqrt (real (n_in * n_out) / real (n_in + n_out))
                                 / sigma_out))"

section \<open>The detector and its search grid\<close>

text \<open>The four attributes set by \<^verbatim>\<open>__init__\<close>.\<close>

record detector =
  min_period :: real
  max_period :: real
  min_transit_duration :: real
  detection_threshold :: real

definition init :: detector where
  "init = \<lparr>min_period = 0.5, max_period = 50, min_transit_duration = 0.01,
            detection_threshold = 7\<rparr>"

text \<open>
  \<^verbatim>\<open>np.linspace(start, stop, num)\<close> for \<open>num \<ge> 2\<close>: \<open>num\<close> equally spaced values with both
  end points. \<^verbatim>\<open>np.logspace(a, b, num)\<close> is \<open>10\<close> to the power of each of them.
\<close>

definition linspace :: "real \<Rightarrow> real \<Rightarrow> nat \<Rightarrow> real list" where
  "linspace start stop num =
     map (\<lambda>i. start + real i * ((stop - start) / real (num - 1))) [0..<num]"

definition logspace :: "real \<Rightarrow> real \<Rightarrow> nat \<Rightarrow> real list" where
  "logspace start stop num = map (\<lambda>y. 10 powr y) (linspace start stop num)"

definition periods :: "detector \<Rightarrow> real list" where
  "periods self = logspace (log 10 (min_period self)) (log 10 (max_period self)) 1000"

definition duration_fracs :: "real list" where
  "duration_fracs = linspace 0.01 0.2 20"

definition t0_fracs :: "real list" where
  "t0_fracs = linspace 0 1 50"

section \<open>Phase folding\<close>

text \<open>
  \<^verbatim>\<open>time % period\<close> on floats is the remainder with the sign of the divisor; in exact
  arithmetic it is \<open>t - period * \<lfloor>t / period\<rfloor>\<close>. Every period of the grid is a power
  of ten, hence positive, so the divisor is never zero.
\<close>

definition py_mod :: "real \<Rightarrow> real \<Rightarrow> real" where
  "py_mod a b = a - b * of_int \<lfloor>a / b\<rfloor>"

definition fold_phase :: "real \<Rightarrow> real \<Rightarrow> real" where
  "fold_phase period t = py_mod t period / period"

section \<open>Box Least Squares search\<close>

record bls_result =
  bls_period :: real
  bls_power :: real
  bls_t0 :: real
  bls_duration :: real

text \<open>
  The returned dictionary with keys \<^verbatim>\<open>period\<close>, \<^verbatim>\<open>power\<close>, \<^verbatim>\<open>t0\<close>, \<^verbatim>\<open>duration\<close>; during the
  search it holds the four \<^verbatim>\<open>best_*\<close> variables, which start at zero.
\<close>

definition bls_start :: bls_result where
  "bls_start = \<lparr>bls_period = 0, bls_power = 0, bls_t0 = 0, bls_duration = 0\<rparr>"

text \<open>The body of the innermost loop: a strictly larger power replaces the best so far.\<close>

definition bls_body ::
  "(real \<times> real) list \<Rightarrow> real \<Rightarrow> real \<Rightarrow> bls_result \<Rightarrow> real \<Rightarrow> bls_result" where
  "bls_body pf period_v duration_frac best t0_frac =
     (let pw = calculate_bls_power pf t0_frac duration_frac
      in if pw > bls_power best
         then \<lparr>bls_period = period_v, bls_power = pw, bls_t0 = t0_frac * period_v,
               bls_duration = duration_frac * period_v\<rparr>
         else best)"

definition bls_duration_loop ::
  "(real \<times> real) list \<Rightarrow> real \<Rightarrow> bls_result \<Rightarrow> real \<Rightarrow> bls_result" where
  "bls_duration_loop pf period_v best duration_frac =
     foldl (bls_body pf period_v duration_frac) best t0_fracs"

definition bls_period_loop :: "(real \<times> real) list \<Rightarrow> bls_result \<Rightarrow> real \<Rightarrow> bls_result" where
  "bls_period_loop series best period_v =
     (let pf = map (\<lambda>(t, f). (fold_phase period_v t, f)) series
      in foldl (bls_duration_loop pf period_v) best duration_fracs)"

definition box_least_squares :: "detector \<Rightarrow> (real \<times> real) list \<Rightarrow> bls_result" where
  "box_least_squares self series = foldl (bls_period_loop series) bls_start (periods self)"

section \<open>Preprocessing\<close>

text \<open>
  \<^verbatim>\<open>np.median\<close> of a non-empty array of finite values: the middle element of the sorted
  array, or the mean of the two middle elements.
\<close>

definition np_median :: "real list \<Rightarrow> real" where
  "np_median xs =
     (let s = sort xs; n = length s
      in if odd n then s ! (n div 2) else (s ! (n div 2 - 1) + s ! (n div 2)) / 2)"

text \<open>The mask \<^verbatim>\<open>np.isfinite(time) & np.isfinite(flux)\<close>.\<close>

fun finite_rows :: "(npfloat \<times> npfloat) list \<Rightarrow> (real \<times> real) list" where
  "finite_rows [] = []"
| "finite_rows ((Finite t, Finite f) # rows) = (t, f) # finite_rows rows"
| "finite_rows (_ # rows) = finite_rows rows"

text \<open>
  \<^verbatim>\<open>preprocess_lightcurve(time, flux)\<close>. \<^verbatim>\<open>np.argsort(time)\<close> is modelled as a stable sort
  by time; numpy's default sort may order rows of equal time differently.

  Two branches spell out what numpy computes where real arithmetic has no value.
  With no finite row left, every array is empty and so is the result. With
  \<^verbatim>\<open>median_flux == 0\<close> every quotient \<^verbatim>\<open>flux / median_flux\<close> is an infinity or NaN, hence
  \<^verbatim>\<open>np.std\<close> of them is NaN, every comparison with \<^verbatim>\<open>3 * flux_std\<close> is false and the
  outlier mask selects nothing.
\<close>

definition preprocess_lightcurve :: "(npfloat \<times> npfloat) list \<Rightarrow> (real \<times> real) list" where
  "preprocess_lightcurve rows =
     (let sorted_rows = sort_key fst (finite_rows rows)
      in if sorted_rows = [] then []
         else
           let median_flux = np_median (map snd sorted_rows)
           in if median_flux = 0 then []
              else
                let normalized = map (\<lambda>(t, f). (t, f / median_flux)) sorted_rows;
                    flux_median = np_median (map snd normalized);
                    flux_std = np_std (map snd normalized)
                in filter (\<lambda>(t, f). \<bar>f - flux_median\<bar> < 3 * flux_std) normalized)"

text \<open>A cleaned series read again as raw input.\<close>

definition as_raw :: "(real \<times> real) list \<Rightarrow> (npfloat \<times> npfloat) list" where
  "as_raw series = map (\<lambda>(t, f). (Finite t, Finite f)) series"

section \<open>Transit model fit\<close>

datatype error = ValueError string

type_synonym params = "real \<times> real \<times> real \<times> real"

text \<open>
  \<^verbatim>\<open>scipy.optimize.minimize(chi_squared, initial_params, method='Nelder-Mead')\<close> is a
  library call: it is a parameter of the model, taking the cost function and the
  initial guess and returning \<^verbatim>\<open>result.x\<close>, or \<open>None\<close> when it raises.
\<close>

type_synonym minimizer = "(params \<Rightarrow> real) \<Rightarrow> params \<Rightarrow> params option"

text \<open>
  The box model. With \<^verbatim>\<open>period_fit == 0\<close> the phase is NaN, both comparisons are false
  and the model flux stays at one.
\<close>

definition transit_model :: "real list \<Rightarrow> params \<Rightarrow> real list" where
  "transit_model time =
     (\<lambda>(depth, period_fit, t0_fit, duration_fit).
        map (\<lambda>t.
          if period_fit = 0 then 1
          else
            let phase = py_mod (t - t0_fit) period_fit / period_fit;
                centred = (if phase > 0.5 then phase - 1 else phase)
            in if \<bar>centred * period_fit\<bar> < duration_fit / 2 then 1 - depth else 1) time)"

definition sum_sq_residuals :: "real list \<Rightarrow> real list \<Rightarrow> real" where
  "sum_sq_residuals flux model = sum_list (map (\<lambda>(f, m). (f - m)\<^sup>2) (zip flux model))"

definition chi_squared :: "detector \<Rightarrow> (real \<times> real) list \<Rightarrow> params \<Rightarrow> real" where
  "chi_squared self series =
     (\<lambda>(depth, period_fit, t0_fit, duration_fit).
        if depth < 0 \<or> depth > 0.1 then 10 ^ 10
        else if period_fit < min_period self \<or> period_fit > max_period self then 10 ^ 10
        else if duration_fit < min_transit_duration self \<or> duration_fit > period_fit / 2
        then 10 ^ 10
        else sum_sq_residuals (map snd series)
               (transit_model (map fst series) (depth, period_fit, t0_fit, duration_fit)))"

record transit_fit =
  fit_depth :: real
  fit_period :: real
  fit_t0 :: real
  fit_duration :: real
  chi2 :: real
  reduced_chi2 :: npfloat
  model_flux :: "real list"

text \<open>
  \<^verbatim>\<open>fit_transit_model\<close>. \<^verbatim>\<open>np.min(flux)\<close> of an empty array raises \<^verbatim>\<open>ValueError\<close> before the
  \<^verbatim>\<open>try\<close>; an exception of the optimizer is caught and gives \<^verbatim>\<open>None\<close>. The division by
  \<^verbatim>\<open>len(flux) - 4\<close> is a numpy division.
\<close>

definition fit_transit_model ::
  "minimizer \<Rightarrow> detector \<Rightarrow> (real \<times> real) list \<Rightarrow> real \<Rightarrow> real \<Rightarrow> real
     \<Rightarrow> error + transit_fit option" where
  "fit_transit_model minimize self series period_v t0_v duration_v =
     (let time = map fst series; flux = map snd series
      in if flux = []
         then Inl (ValueError
           ''zero-size array to reduction operation minimum which has no identity'')
         else
           let initial_depth = max 0.001 (1 - Min (set flux));
               initial_params = (initial_depth, period_v, t0_v, duration_v)
           in case minimize (chi_squared self series) initial_params of
                None \<Rightarrow> Inr None
              | Some (depth, period_fit, t0_fit, duration_fit) \<Rightarrow>
                  let model = transit_model time (depth, period_fit, t0_fit, duration_fit);
                      chi2_v = sum_sq_residuals flux model;
                      reduced = np_div chi2_v (real_of_int (int (length flux) - 4))
                  in Inr (Some \<lparr>fit_depth = depth, fit_period = period_fit, fit_t0 = t0_fit,
                                 fit_duration = duration_fit, chi2 = chi2_v,
                                 reduced_chi2 = reduced, model_flux = model\<rparr>))"

section \<open>Rounding of reported values\<close>

text \<open>
  \<^verbatim>\<open>round(x, ndigits)\<close> on a numpy float: scale by a power of ten, round to the nearest
  integer with ties to the even one, scale back. Infinities and NaN are returned as
  they are.
\<close>

definition rint :: "real \<Rightarrow> int" where
  "rint x =
     (let f = \<lfloor>x\<rfloor>; d = x - of_int f
      in if d < 1 / 2 then f
         else if d > 1 / 2 then f + 1
         else if even f then f else f + 1)"

definition py_round :: "real \<Rightarrow> nat \<Rightarrow> real" where
  "py_round x ndigits = of_int (rint (x * 10 ^ ndigits)) / 10 ^ ndigits"

fun np_round :: "npfloat \<Rightarrow> nat \<Rightarrow> npfloat" where
  "np_round (Finite x) ndigits = Finite (py_round x ndigits)"
| "np_round v ndigits = v"

section \<open>Detection significance\<close>

record significance =
  snr :: npfloat
  confidence_percent :: real
  false_alarm_probability :: npfloat
  detection_significance_sigma :: npfloat

text \<open>
  Python's \<^verbatim>\<open>max(0, min(100, x))\<close> on a float \<open>x\<close>: \<^verbatim>\<open>min\<close> keeps \<open>100\<close> unless \<open>x < 100\<close>
  and \<^verbatim>\<open>max\<close> keeps \<open>0\<close> unless the second argument is greater, so NaN gives \<open>100\<close>.
\<close>

fun clamp_confidence :: "npfloat \<Rightarrow> real" where
  "clamp_confidence (Finite s) = max 0 (min 100 ((s - 3) / 7 * 100))"
| "clamp_confidence PosInf = 100"
| "clamp_confidence NegInf = 0"
| "clamp_confidence NaN = 100"

text \<open>\<^verbatim>\<open>1 / (1 + np.exp(snr - 5))\<close>.\<close>

fun false_alarm :: "npfloat \<Rightarrow> npfloat" where
  "false_alarm (Finite s) = Finite (1 / (1 + exp (s - 5)))"
| "false_alarm PosInf = Finite 0"
| "false_alarm NegInf = Finite 1"
| "false_alarm NaN = NaN"

text \<open>
  \<^verbatim>\<open>calculate_detection_significance(time, flux, model_flux)\<close> on the pairs of flux and
  model flux; \<^verbatim>\<open>time\<close> is not used by the source. \<^verbatim>\<open>np.max\<close> of an empty array raises
  \<^verbatim>\<open>ValueError\<close>. The quotient \<^verbatim>\<open>signal_depth / noise_std\<close> is a numpy division.
\<close>

definition calculate_detection_significance :: "(real \<times> real) list \<Rightarrow> error + significance" where
  "calculate_detection_significance fm =
     (if fm = []
      then Inl (ValueError
        ''zero-size array to reduction operation maximum which has no identity'')
      else
        let residuals = map (\<lambda>(f, m). f - m) fm;
            noise_std = np_std residuals;
            signal_depth = Max (set (map snd fm)) - Min (set (map snd fm));
            snr_v = np_div signal_depth noise_std;
            false_alarm_prob = false_alarm snr_v;
            confidence = clamp_confidence snr_v
        in Inr \<lparr>snr = np_round snr_v 2,
                 confidence_percent = py_round confidence 1,
                 false_alarm_probability = np_round false_alarm_prob 6,
                 detection_significance_sigma = np_round snr_v 1\<rparr>)"

text \<open>The comparison \<^verbatim>\<open>x > c\<close> of a float with a finite constant; false for NaN.\<close>

fun np_gt :: "npfloat \<Rightarrow> real \<Rightarrow> bool" where
  "np_gt (Finite x) c = (x > c)"
| "np_gt PosInf c = True"
| "np_gt NegInf c = False"
| "np_gt NaN c = False"

section \<open>Planet properties\<close>

record planet_properties =
  radius_earth :: npfloat
  period_days :: real
  semi_major_axis_au :: real
  equilibrium_temp_k :: npfloat
  orbital_velocity_kms :: npfloat

text \<open>\<^verbatim>\<open>np.sqrt\<close>: NaN for a negative argument.\<close>

fun np_sqrt :: "npfloat \<Rightarrow> npfloat" where
  "np_sqrt (Finite x) = (if x < 0 then NaN else Finite (sqrt x))"
| "np_sqrt PosInf = PosInf"
| "np_sqrt NegInf = NaN"
| "np_sqrt NaN = NaN"

text \<open>Multiplication and division of a float by a positive finite constant.\<close>

fun np_scale :: "real \<Rightarrow> npfloat \<Rightarrow> npfloat" where
  "np_scale c (Finite x) = Finite (c * x)"
| "np_scale c v = v"

definition calculate_planet_properties :: "real \<Rightarrow> real \<Rightarrow> real \<Rightarrow> planet_properties" where
  "calculate_planet_properties depth period_v stellar_radius =
     (let planet_radius =
            (case np_sqrt (Finite depth) of
               Finite r \<Rightarrow> Finite (r * stellar_radius * 109.2)
             | other \<Rightarrow> NaN);
          stellar_mass = 1;
          semi_major_axis = ((period_v / 365.25)\<^sup>2 * stellar_mass) powr (1 / 3);
          stellar_temp = 5778;
          eq_temp = np_scale stellar_temp
                      (np_sqrt (np_div stellar_radius (2 * semi_major_axis * 215)));
          orbital_velocity =
            np_scale (1 / 1000)
              (np_div (2 * pi * semi_major_axis * 149600000) (period_v * 24 * 3600))
      in \<lparr>radius_earth = np_round planet_radius 2,
           period_days = py_round period_v 3,
           semi_major_axis_au = py_round semi_major_axis 4,
           equilibrium_temp_k = np_round eq_temp 1,
           orbital_velocity_kms = np_round orbital_velocity 2\<rparr>)"

section \<open>The pipeline\<close>

text \<open>
  The result of \<^verbatim>\<open>analyze_lightcurve\<close> is a dictionary of JSON values; a key can be
  absent, or present with the value \<^verbatim>\<open>None\<close>.
\<close>

datatype json = JNull | JBool bool | JNum npfloat | JStr string | JObj "(string \<times> json) list"

fun get :: "json \<Rightarrow> string \<Rightarrow> json option" where
  "get (JObj kvs) k = map_of kvs k"
| "get _ k = None"

definition jreal :: "real \<Rightarrow> json" where
  "jreal x = JNum (Finite x)"

definition error_result :: "string \<Rightarrow> json" where
  "error_result msg = JObj [(''error'', JStr msg)]"

definition planet_properties_json :: "planet_properties \<Rightarrow> json" where
  "planet_properties_json p =
     JObj [(''radius_earth'', JNum (radius_earth p)),
           (''period_days'', jreal (period_days p)),
           (''semi_major_axis_au'', jreal (semi_major_axis_au p)),
           (''equilibrium_temp_k'', JNum (equilibrium_temp_k p)),
           (''orbital_velocity_kms'', JNum (orbital_velocity_kms p))]"

definition transit_parameters_json :: "transit_fit \<Rightarrow> json" where
  "transit_parameters_json fit =
     JObj [(''depth_ppm'', jreal (py_round (fit_depth fit * 10 ^ 6) 1)),
           (''period_days'', jreal (py_round (fit_period fit) 3)),
           (''duration_hours'', jreal (py_round (fit_duration fit * 24) 2)),
           (''reduced_chi_squared'', JNum (np_round (reduced_chi2 fit) 3))]"

text \<open>
  The stages a run has called, in order: the observable effect of the pipeline beside
  its result.
\<close>

datatype stage = Preprocess | BLS_search | Fit | Properties | Significance

text \<open>
  The parsed CSV text: either the header lacks \<^verbatim>\<open>time\<close> or \<^verbatim>\<open>flux\<close>, or the rows whose
  first two fields \<^verbatim>\<open>float()\<close> accepts (which includes \<^verbatim>\<open>nan\<close> and \<^verbatim>\<open>inf\<close>).
\<close>

datatype parsed = BadHeader | Rows "(npfloat \<times> npfloat) list"

definition error_text :: "error \<Rightarrow> string" where
  "error_text e = (case e of ValueError msg \<Rightarrow> msg)"

definition no_signal_result :: "bls_result \<Rightarrow> json" where
  "no_signal_result bls =
     JObj [(''planet_detected'', JBool False),
           (''confidence'', jreal 15),
           (''analysis'',
              JObj [(''bls_power'', jreal (py_round (bls_power bls) 2)),
                    (''best_period'', jreal (py_round (bls_period bls) 3)),
                    (''message'', JStr ''No significant periodic signal detected'')])]"

definition fit_failed_result :: json where
  "fit_failed_result =
     JObj [(''planet_detected'', JBool False),
           (''confidence'', jreal 25),
           (''analysis'', JObj [(''message'', JStr ''Transit model fitting failed'')])]"

definition final_result ::
  "bls_result \<Rightarrow> transit_fit \<Rightarrow> planet_properties \<Rightarrow> significance \<Rightarrow> json" where
  "final_result bls fit planet_props sig =
     (let planet_detected = (np_gt (snr sig) 5 \<and> confidence_percent sig > 70)
      in JObj [(''planet_detected'', JBool planet_detected),
               (''confidence'', jreal (confidence_percent sig)),
               (''analysis'',
                  JObj [(''bls_power'', jreal (py_round (bls_power bls) 2)),
                        (''signal_to_noise'', JNum (snr sig)),
                        (''detection_significance'', JNum (detection_significance_sigma sig)),
                        (''false_alarm_probability'', JNum (false_alarm_probability sig))]),
               (''planet_properties'',
                  if planet_detected then planet_properties_json planet_props else JNull),
               (''transit_parameters'',
                  if planet_detected then transit_parameters_json fit else JNull)])"

text \<open>
  \<^verbatim>\<open>analyze_lightcurve\<close> from the parsed rows on. An exception of a stage is caught by
  the outer \<^verbatim>\<open>except\<close> and reported as an error result.
\<close>

definition analyze_lightcurve :: "minimizer \<Rightarrow> detector \<Rightarrow> parsed \<Rightarrow> json \<times> stage list" where
  "analyze_lightcurve minimize self input =
     (case input of
        BadHeader \<Rightarrow>
          (error_result (''CSV must contain '' @ [CHR 0x22] @ ''time'' @ [CHR 0x22]
                           @ '' and '' @ [CHR 0x22] @ ''flux'' @ [CHR 0x22] @ '' columns''), [])
      | Rows data \<Rightarrow>
          if length data < 100
          then (error_result ''Insufficient data points. Need at least 100 measurements.'', [])
          else
            let series = preprocess_lightcurve data
            in if length series < 50
               then (error_result ''Too few valid data points after preprocessing'',
                     [Preprocess])
               else
                 let bls = box_least_squares self series
                 in if bls_power bls < detection_threshold self
                    then (no_signal_result bls, [Preprocess, BLS_search])
                    else
                      (case fit_transit_model minimize self series
                              (bls_period bls) (bls_t0 bls) (bls_duration bls) of
                         Inl e \<Rightarrow>
                           (error_result (''Analysis failed: '' @ error_text e),
                            [Preprocess, BLS_search, Fit])
                       | Inr None \<Rightarrow> (fit_failed_result, [Preprocess, BLS_search, Fit])
                       | Inr (Some fit) \<Rightarrow>
                           let planet_props =
                                 calculate_planet_properties (fit_depth fit) (fit_period fit) 1
                           in (case calculate_detection_significance
                                      (zip (map snd series) (model_flux fit)) of
                                 Inl e \<Rightarrow>
                                   (error_result (''Analysis failed: '' @ error_text e),
                                    [Preprocess, BLS_search, Fit, Properties, Significance])
                               | Inr sig \<Rightarrow>
                                   (final_result bls fit planet_props sig,
                                    [Preprocess, BLS_search, Fit, Properties, Significance]))))"

section \<open>Phase folding in binary64\<close>

text \<open>
  The same fold with the rounding of \<^verbatim>\<open>float64\<close> written out. A float has a 53-bit
  significand; \<open>rnd64\<close> rounds a real to the nearest one, ties to the even significand.
  The exponent range is taken as unbounded: overflow and subnormal numbers are not
  modelled.
\<close>

definition quantum :: "real \<Rightarrow> real" where
  "quantum x = 2 powr (of_int \<lfloor>log 2 \<bar>x\<bar>\<rfloor> - 52)"

definition rnd64 :: "real \<Rightarrow> real" where
  "rnd64 x = (if x = 0 then 0 else of_int (rint (x / quantum x)) * quantum x)"

definition is_float64 :: "real \<Rightarrow> bool" where
  "is_float64 x \<longleftrightarrow> rnd64 x = x"

text \<open>C's \<^verbatim>\<open>fmod\<close>: exact, with the sign of the dividend.\<close>

definition c_fmod :: "real \<Rightarrow> real \<Rightarrow> real" where
  "c_fmod a b =
     a - b * of_int (if a / b \<ge> 0 then \<lfloor>a / b\<rfloor> else \<lceil>a / b\<rceil>)"

text \<open>
  numpy's \<^verbatim>\<open>%\<close> on floats for a non-zero divisor (\<^verbatim>\<open>npy_divmod\<close>): \<^verbatim>\<open>fmod\<close>, and when the
  remainder is non-zero and its sign differs from the divisor's, the divisor is added
  in floating point. Python's own float \<^verbatim>\<open>%\<close> does the same.
\<close>

definition np_remainder :: "real \<Rightarrow> real \<Rightarrow> real" where
  "np_remainder a b =
     (let m = c_fmod a b
      in if m \<noteq> 0 \<and> ((b < 0) \<noteq> (m < 0)) then rnd64 (m + b) else m)"

definition fold_phase64 :: "real \<Rightarrow> real \<Rightarrow> real" where
  "fold_phase64 period_v t = rnd64 (np_remainder t period_v / period_v)"

section \<open>The formula of the specification for the BLS power\<close>

text \<open>
  Section 4.2 of the specification gives the power as zero below three in-transit
  points and otherwise as
  \<open>max(0, (mean(flux_out) - mean(flux_in)) \<cdot> sqrt(n_in \<cdot> n_out / (n_in + n_out)) / std(flux_out))\<close>,
  with no further case. Evaluated as numpy evaluates it, the mean of no point is NaN,
  the division is a numpy division, and Python's \<^verbatim>\<open>max(0, x)\<close> keeps \<open>0\<close> unless \<open>x > 0\<close>.
\<close>

fun np_max0 :: "npfloat \<Rightarrow> npfloat" where
  "np_max0 (Finite x) = Finite (max 0 x)"
| "np_max0 PosInf = PosInf"
| "np_max0 NegInf = Finite 0"
| "np_max0 NaN = Finite 0"

definition spec_bls_power :: "(real \<times> real) list \<Rightarrow> real \<Rightarrow> real \<Rightarrow> npfloat" where
  "spec_bls_power pf t0_frac duration_frac =
     (let ins = flux_in_transit pf t0_frac duration_frac;
          outs = flux_out_transit pf t0_frac duration_frac;
          n_in = length ins;
          n_out = length outs
      in if n_in < 3 then Finite 0
         else if n_out = 0 then np_max0 NaN
         else np_max0 (np_div ((np_mean outs - np_mean ins)
                                 * sqrt (real (n_in * n_out) / real (n_in + n_out)))
                              (np_std outs)))"

section \<open>The search grid as a list\<close>

text \<open>
  The grid points \<open>(period, duration_frac, t0_frac)\<close> in the order in which the three
  nested loops of \<^verbatim>\<open>box_least_squares\<close> visit them, the power the loop body computes at
  a grid point, and the values it stores when that point becomes the best so far.
\<close>

definition grid :: "detector \<Rightarrow> (real \<times> real \<times> real) list" where
  "grid self =
     concat (map (\<lambda>p. concat (map (\<lambda>d. map (\<lambda>t. (p, d, t)) t0_fracs) duration_fracs))
               (periods self))"

definition grid_power :: "(real \<times> real) list \<Rightarrow> real \<times> real \<times> real \<Rightarrow> real" where
  "grid_power series =
     (\<lambda>(p, d, t). calculate_bls_power (map (\<lambda>(tm, f). (fold_phase p tm, f)) series) t d)"

definition candidate :: "(real \<times> real) list \<Rightarrow> real \<times> real \<times> real \<Rightarrow> bls_result" where
  "candidate series =
     (\<lambda>(p, d, t). \<lparr>bls_period = p, bls_power = grid_power series (p, d, t),
                    bls_t0 = t * p, bls_duration = d * p\<rparr>)"

text \<open>The loop body as a step on the list of grid points.\<close>

definition bls_step ::
  "(real \<times> real) list \<Rightarrow> bls_result \<Rightarrow> real \<times> real \<times> real \<Rightarrow> bls_result" where
  "bls_step series best g =
     (if grid_power series g > bls_power best then candidate series g else best)"

text \<open>A field of a nested dictionary, such as \<^verbatim>\<open>result['analysis']['message']\<close>.\<close>

definition get_in :: "json \<Rightarrow> string \<Rightarrow> string \<Rightarrow> json option" where
  "get_in r k1 k2 = (case get r k1 of Some a \<Rightarrow> get a k2 | None \<Rightarrow> None)"

section \<open>Two example light curves\<close>

text \<open>\<open>n\<close> measurements half a day apart, starting at \<open>start\<close>, all with the same flux.\<close>

definition block :: "real \<Rightarrow> real \<Rightarrow> nat \<Rightarrow> (real \<times> real) list" where
  "block start flux n = map (\<lambda>i. (start + real i / 2, flux)) [0..<n]"

text \<open>
  A light curve of 100 rows with a transit of depth 0.01 every half day: 20 in-transit
  rows at flux 0.99 (times 0, 0.5, ...) and 80 out-of-transit rows at flux 0.999, 1 and
  1.001 (times 10.25, 10.75, ...).
\<close>

definition transit_series :: "(real \<times> real) list" where
  "transit_series =
     block 0 (99 / 100) 20 @ block (41 / 4) (999 / 1000) 20 @ block (81 / 4) 1 20
     @ block (121 / 4) (1001 / 1000) 40"

definition transit_rows :: "(npfloat \<times> npfloat) list" where
  "transit_rows = as_raw transit_series"

text \<open>A light curve of 100 rows with flux 1 in 99 rows and one outlier at flux 2.\<close>

definition flat_series :: "(real \<times> real) list" where
  "flat_series = block 0 1 99"

definition flat_rows :: "(npfloat \<times> npfloat) list" where
  "flat_rows = as_raw (flat_series @ [(99 / 2, 2)])"

text \<open>A stand-in for the optimizer that returns a fixed parameter vector.\<close>

definition fixed_minimizer :: "params \<Rightarrow> minimizer" where
  "fixed_minimizer x = (\<lambda>cost x0. Some x)"

section \<open>Properties of the BLS power\<close>

lemma np_std_nonneg: "0 \<le> np_std xs"
  by (auto simp: np_std_def np_var_def np_mean_def
        intro!: divide_nonneg_nonneg sum_list_nonneg)

lemma np_std_Nil: "np_std [] = 0"
  by (simp add: np_std_def np_var_def np_mean_def)

lemma calculate_bls_power_cases:
  "calculate_bls_power pf t0_frac duration_frac =
     (if length (flux_in_transit pf t0_frac duration_frac) < 3
         \<or> length (flux_out_transit pf t0_frac duration_frac) = 0
         \<or> np_std (flux_out_transit pf t0_frac duration_frac) = 0
      then 0
      else max 0 ((np_mean (flux_out_transit pf t0_frac duration_frac)
                     - np_mean (flux_in_transit pf t0_frac duration_frac))
                   * sqrt (real (length (flux_in_transit pf t0_frac duration_frac)
                                  * length (flux_out_transit pf t0_frac duration_frac))
                           / real (length (flux_in_transit pf t0_frac duration_frac)
                                  + length (flux_out_transit pf t0_frac duration_frac)))
                   / np_std (flux_out_transit pf t0_frac duration_frac)))"
  by (simp add: calculate_bls_power_def Let_def)

lemma calculate_bls_power_nonneg: "0 \<le> calculate_bls_power pf t0_frac duration_frac"
  by (simp add: calculate_bls_power_cases)



lemma bls_example_in:
  "flux_in_transit [(0, 0), (0, 0), (0, 0), (1/2, 0), (3/5, 2)] 0 (1/5) = [0, 0, 0]"
  by (simp add: flux_in_transit_def transit_mask_def)

lemma bls_example_out:
  "flux_out_transit [(0, 0), (0, 0), (0, 0), (1/2, 0), (3/5, 2)] 0 (1/5) = [0, 2]"
  by (simp add: flux_out_transit_def transit_mask_def)


section \<open>Rounding of integers\<close>

lemma rint_of_int [simp]: "rint (of_int k) = k"
  by (simp add: rint_def)

lemma py_round_of_int: "py_round (of_int k) n = of_int k"
proof -
  have "rint (of_int k * 10 ^ n) = k * 10 ^ n"
    using rint_of_int [of "k * 10 ^ n"] by simp
  then show ?thesis by (simp add: py_round_def)
qed

lemma py_round_0 [simp]: "py_round 0 n = 0"
  using py_round_of_int [of 0 n] by simp

lemma py_round_1 [simp]: "py_round 1 n = 1"
  using py_round_of_int [of 1 n] by simp

lemma py_round_100 [simp]: "py_round 100 n = 100"
  using py_round_of_int [of 100 n] by simp

section \<open>Properties of the transit fit\<close>

lemma sum_sq_nonneg: "0 \<le> sum_sq_residuals flux model"
  by (auto simp: sum_sq_residuals_def intro!: sum_list_nonneg)

lemma sum_sq_not_neg: "\<not> sum_sq_residuals flux model < 0"
  using sum_sq_nonneg [of flux model] by linarith

text \<open>
  C3, as stated, fails: a fit over four points does not yield an error. With an
  optimizer that returns its initial guess, four points of flux 1 are fitted
  successfully and the reduced chi-squared is the division artifact \<open>0 / 0 = NaN\<close>.
\<close>

theorem fit_four_points_counterexample:
  "fit_transit_model (\<lambda>cost x0. Some x0) init [(0, 1), (1, 1), (2, 1), (3, 1)] 10 5 (1/10) =
     Inr (Some \<lparr>fit_depth = 1/1000, fit_period = 10, fit_t0 = 5, fit_duration = 1/10,
                chi2 = 0, reduced_chi2 = NaN, model_flux = [1, 1, 1, 1]\<rparr>)"
  by (simp add: fit_transit_model_def transit_model_def py_mod_def sum_sq_residuals_def
        np_div_def)

text \<open>
  C3, amended: for every successful fit over \<open>N\<close> flux points, \<open>chi2\<close> is the sum of the
  squared residuals between the flux and the returned model flux, and \<open>reduced_chi2\<close>
  is the numpy quotient of \<open>chi2\<close> by \<open>N - 4\<close>: the real quotient when \<open>N \<noteq> 4\<close>, and for
  \<open>N = 4\<close> the value \<open>+inf\<close> when \<open>chi2 > 0\<close> and NaN when \<open>chi2 = 0\<close>. No error is raised
  for a small \<open>N\<close>.
\<close>

theorem fit_reduced_chi2:
  assumes "fit_transit_model minimize self series period_v t0_v duration_v = Inr (Some fit)"
  shows "chi2 fit = sum_sq_residuals (map snd series) (model_flux fit)
       \<and> model_flux fit = transit_model (map fst series)
                            (fit_depth fit, fit_period fit, fit_t0 fit, fit_duration fit)
       \<and> reduced_chi2 fit =
           (if length series \<noteq> 4 then Finite (chi2 fit / (real (length series) - 4))
            else if chi2 fit > 0 then PosInf else NaN)"
  using assms
  by (auto simp add: fit_transit_model_def Let_def np_div_def sum_sq_not_neg
      split: if_splits option.splits prod.splits)

theorem fit_reduced_chi2_witness:
  "fit_transit_model (\<lambda>cost x0. Some x0) init
       [(0, 1), (1, 1), (2, 1), (3, 1), (4, 2)] 10 5 (1/10) =
     Inr (Some \<lparr>fit_depth = 1/1000, fit_period = 10, fit_t0 = 5, fit_duration = 1/10,
                chi2 = 1, reduced_chi2 = Finite 1, model_flux = [1, 1, 1, 1, 1]\<rparr>)
   \<and> sum_sq_residuals [1, 1, 1, 1, 2] [1, 1, 1, 1, 1] = 1"
proof -
  have run: "fit_transit_model (\<lambda>cost x0. Some x0) init
       [(0, 1), (1, 1), (2, 1), (3, 1), (4, 2)] 10 5 (1/10) =
     Inr (Some \<lparr>fit_depth = 1/1000, fit_period = 10, fit_t0 = 5, fit_duration = 1/10,
                chi2 = 1, reduced_chi2 = Finite 1, model_flux = [1, 1, 1, 1, 1]\<rparr>)"
    by (simp add: fit_transit_model_def transit_model_def py_mod_def sum_sq_residuals_def
          np_div_def)
  note fit_reduced_chi2 [OF run, THEN conjunct1]
  then have "sum_sq_residuals [1, 1, 1, 1, 2] [1, 1, 1, 1, 1] = 1"
    by simp
  with run show ?thesis
    by blast
qed

section \<open>Properties of the significance evaluator\<close>

text \<open>
  C4, as stated, fails: with residuals of standard deviation zero the evaluator does
  not fail. For a flux series equal to its model the quotient is \<open>0.01 / 0\<close>, and the
  result reports an infinite signal-to-noise ratio with confidence 100.
\<close>

theorem significance_zero_noise_counterexample:
  "calculate_detection_significance [(1, 1), (99/100, 99/100)] =
     Inr \<lparr>snr = PosInf, confidence_percent = 100, false_alarm_probability = Finite 0,
          detection_significance_sigma = PosInf\<rparr>"
  by (simp add: calculate_detection_significance_def np_std_def np_var_def np_mean_def
        np_div_def)

text \<open>
  C4, amended: for every non-empty pair of flux and model series the evaluator
  returns a result. Its \<open>snr\<close> is \<open>(max(model) - min(model)) / std(flux - model)\<close> rounded
  to two decimals when the standard deviation is not zero; when it is zero, \<open>snr\<close> is
  \<open>+inf\<close> if the model is not constant and NaN if it is, and the confidence is 100.
\<close>

theorem significance_snr:
  assumes "fm \<noteq> []"
  shows "\<exists>sig. calculate_detection_significance fm = Inr sig
           \<and> snr sig =
               (if np_std (map (\<lambda>(f, m). f - m) fm) \<noteq> 0
                then Finite (py_round ((Max (set (map snd fm)) - Min (set (map snd fm)))
                                        / np_std (map (\<lambda>(f, m). f - m) fm)) 2)
                else if Max (set (map snd fm)) > Min (set (map snd fm)) then PosInf
                else NaN)
           \<and> (np_std (map (\<lambda>(f, m). f - m) fm) = 0 \<longrightarrow> confidence_percent sig = 100)"
proof -
  let ?noise = "np_std (map (\<lambda>(f, m). f - m) fm)"
  let ?hi = "Max (set (map snd fm))" and ?lo = "Min (set (map snd fm))"
  from assms obtain x where "x \<in> set (map snd fm)" by (cases fm) auto
  then have "?lo \<le> x" "x \<le> ?hi" by simp_all
  then have le: "?lo \<le> ?hi" by linarith
  have q: "np_div (?hi - ?lo) ?noise =
             (if ?noise \<noteq> 0 then Finite ((?hi - ?lo) / ?noise)
              else if ?hi > ?lo then PosInf else NaN)"
    using le unfolding np_div_def by auto
  show ?thesis
    using assms unfolding calculate_detection_significance_def Let_def q
    by simp
qed

theorem significance_snr_witness:
  "[(2, 1), (-1, 0 :: real)] \<noteq> []
   \<and> np_std (map (\<lambda>(f, m). f - m) [(2, 1), (-1, 0)]) \<noteq> 0
   \<and> (\<exists>sig. calculate_detection_significance [(2, 1), (-1, 0)] = Inr sig
          \<and> snr sig = Finite 1)"
  using significance_snr [of "[(2, 1), (-1, 0)]"]
  by (simp add: np_std_def np_var_def np_mean_def)

section \<open>Properties of preprocessing\<close>

lemma np_var_nonneg: "0 \<le> np_var xs"
  by (auto simp: np_var_def np_mean_def intro!: divide_nonneg_nonneg sum_list_nonneg)

text \<open>The clipping test without the square root, for evaluation on concrete series.\<close>

lemma clip_iff: "\<bar>a\<bar> < 3 * np_std xs \<longleftrightarrow> a\<^sup>2 < 9 * np_var xs"
proof -
  have "3 * np_std xs = sqrt (9 * np_var xs)"
    by (simp add: np_std_def real_sqrt_mult)
  moreover have "\<bar>a\<bar> = sqrt (a\<^sup>2)" by simp
  ultimately show ?thesis
    by (simp only: real_sqrt_less_iff)
qed

lemma finite_rows_as_raw: "finite_rows (as_raw series) = series"
  by (induction series) (auto simp: as_raw_def)

lemma fst_normalized: "fst \<circ> (\<lambda>(t, f). (t, f / m)) = fst"
  by (auto simp: fun_eq_iff)

lemma preprocess_sorted: "sorted (map fst (preprocess_lightcurve rows))"
  by (auto simp: preprocess_lightcurve_def Let_def fst_normalized intro!: sorted_filter)

lemma normalize_by_one: "map (\<lambda>(t, f). (t, f / 1)) xs = (xs :: (real \<times> real) list)"
  by (induction xs) auto




section \<open>Properties of phase folding\<close>

lemma rint_bounds: "of_int (rint x) \<le> x + 1 / 2 \<and> x - 1 / 2 \<le> of_int (rint x)"
  unfolding rint_def Let_def by (auto; linarith)

lemma rint_le_int: "x \<le> of_int k \<Longrightarrow> rint x \<le> k"
  unfolding rint_def Let_def
  by (auto simp: floor_le_iff le_floor_iff; linarith)

lemma rint_ge_int: "of_int k \<le> x \<Longrightarrow> k \<le> rint x"
  unfolding rint_def Let_def
  by (auto simp: le_floor_iff; linarith)

lemma rint_mono: "x \<le> y \<Longrightarrow> rint x \<le> rint y"
proof -
  assume xy: "x \<le> y"
  have fl: "\<lfloor>x\<rfloor> \<le> \<lfloor>y\<rfloor>" using xy by (rule floor_mono)
  show ?thesis
  proof (cases "\<lfloor>x\<rfloor> = \<lfloor>y\<rfloor>")
    case True
    with xy show ?thesis unfolding rint_def Let_def by auto
  next
    case False
    with fl have "\<lfloor>x\<rfloor> + 1 \<le> \<lfloor>y\<rfloor>" by linarith
    moreover have "rint x \<le> \<lfloor>x\<rfloor> + 1" unfolding rint_def Let_def by auto
    moreover have "\<lfloor>y\<rfloor> \<le> rint y" unfolding rint_def Let_def by auto
    ultimately show ?thesis by linarith
  qed
qed

lemma rint_near:
  assumes "\<bar>y - of_int n\<bar> < 1 / 2"
  shows "rint y = n"
proof -
  have "\<bar>(of_int (rint y) :: real) - of_int n\<bar> < 1"
    using rint_bounds [of y] assms by linarith
  then have "\<bar>(of_int (rint y - n) :: real)\<bar> < 1" by simp
  then have "\<bar>rint y - n\<bar> < 1"
    by (metis of_int_abs of_int_less_1_iff)
  then show ?thesis by linarith
qed

lemma quantum_pos: "0 < quantum x"
  by (simp add: quantum_def)

lemma binade:
  assumes "0 < x"
  shows "2 powr of_int \<lfloor>log 2 x\<rfloor> \<le> x" and "x < 2 powr (of_int \<lfloor>log 2 x\<rfloor> + 1)"
  using assms floor_log_eq_powr_iff [of x 2 "\<lfloor>log 2 x\<rfloor>"] by simp_all

lemma floor_log2_eq:
  assumes "2 powr of_int k \<le> x" and "x < 2 powr (of_int k + 1)"
  shows "\<lfloor>log 2 x\<rfloor> = k"
proof -
  have "0 < x" using assms(1) by (smt (verit) powr_gt_zero)
  then show ?thesis using assms floor_log_eq_powr_iff [of x 2 k] by simp
qed

lemma quantum_scale: "2 ^ 53 * quantum x = 2 powr (of_int \<lfloor>log 2 \<bar>x\<bar>\<rfloor> + 1)"
proof -
  have "(2::real) ^ 53 = 2 powr 53" by simp
  then have "2 ^ 53 * quantum x = 2 powr 53 * 2 powr (of_int \<lfloor>log 2 \<bar>x\<bar>\<rfloor> - 52)"
    by (simp only: quantum_def)
  also have "\<dots> = 2 powr (53 + (of_int \<lfloor>log 2 \<bar>x\<bar>\<rfloor> - 52))"
    by (simp only: powr_add)
  finally show ?thesis by (simp add: algebra_simps)
qed

lemma rnd64_nonneg: "0 \<le> x \<Longrightarrow> 0 \<le> rnd64 x"
proof -
  assume "0 \<le> x"
  then have "0 \<le> x / quantum x" using quantum_pos [of x] by simp
  then have "0 \<le> rint (x / quantum x)" using rint_ge_int [of 0] by simp
  then show ?thesis using quantum_pos [of x] by (simp add: rnd64_def)
qed

lemma rnd64_upper:
  assumes "0 < x"
  shows "rnd64 x \<le> 2 powr (of_int \<lfloor>log 2 x\<rfloor> + 1)"
proof -
  have qs: "2 ^ 53 * quantum x = 2 powr (of_int \<lfloor>log 2 x\<rfloor> + 1)"
    using assms by (simp only: quantum_scale abs_of_pos)
  have "x < 2 ^ 53 * quantum x"
    using binade(2) [OF assms] by (simp only: qs)
  then have "x / quantum x < 2 ^ 53"
    using quantum_pos [of x] by (simp only: pos_divide_less_eq)
  then have "x / quantum x \<le> of_int (2 ^ 53)"
    by simp
  then have "rint (x / quantum x) \<le> 2 ^ 53" by (rule rint_le_int)
  then have "(of_int (rint (x / quantum x)) :: real) \<le> 2 ^ 53"
    by (metis of_int_le_iff of_int_numeral of_int_power)
  then have "of_int (rint (x / quantum x)) * quantum x \<le> 2 ^ 53 * quantum x"
    using quantum_pos [of x] by (intro mult_right_mono) simp_all
  then have "of_int (rint (x / quantum x)) * quantum x
               \<le> 2 powr (of_int \<lfloor>log 2 x\<rfloor> + 1)"
    by (simp only: qs)
  then show ?thesis using assms by (simp add: rnd64_def)
qed

lemma rnd64_le_float:
  assumes "0 \<le> x" and "x \<le> b" and "is_float64 b"
  shows "rnd64 x \<le> b"
proof (cases "x = 0")
  case True
  with assms show ?thesis by (simp add: rnd64_def)
next
  case False
  with assms have x: "0 < x" and b: "0 < b" by simp_all
  have le: "\<lfloor>log 2 x\<rfloor> \<le> \<lfloor>log 2 b\<rfloor>"
    using x assms(2) by (intro floor_mono) simp
  show ?thesis
  proof (cases "\<lfloor>log 2 x\<rfloor> = \<lfloor>log 2 b\<rfloor>")
    case True
    then have q: "quantum x = quantum b" using x b by (simp add: quantum_def)
    have "x / quantum b \<le> b / quantum b"
      using assms(2) quantum_pos [of b] by (simp add: divide_right_mono)
    then have "rint (x / quantum b) \<le> rint (b / quantum b)" by (rule rint_mono)
    then have "of_int (rint (x / quantum b)) * quantum b
                 \<le> of_int (rint (b / quantum b)) * quantum b"
      using quantum_pos [of b] by (simp add: mult_right_mono)
    then have "rnd64 x \<le> rnd64 b" using x b by (simp add: rnd64_def q)
    then show ?thesis using assms(3) by (simp add: is_float64_def)
  next
    case False
    with le have "\<lfloor>log 2 x\<rfloor> + 1 \<le> \<lfloor>log 2 b\<rfloor>" by linarith
    then have "(of_int \<lfloor>log 2 x\<rfloor> :: real) + 1 \<le> of_int \<lfloor>log 2 b\<rfloor>"
      by (metis of_int_le_iff of_int_add of_int_1)
    then have "(2::real) powr (of_int \<lfloor>log 2 x\<rfloor> + 1) \<le> 2 powr of_int \<lfloor>log 2 b\<rfloor>"
      by (simp add: powr_mono)
    with rnd64_upper [OF x] binade(1) [OF b] show ?thesis by linarith
  qed
qed

lemma rnd64_in_binade:
  assumes "2 powr of_int k \<le> x" and "x < 2 powr (of_int k + 1)"
  shows "rnd64 x = of_int (rint (x / 2 powr (of_int k - 52))) * 2 powr (of_int k - 52)"
proof -
  have "0 < x" using assms(1) by (smt (verit) powr_gt_zero)
  moreover from this have "\<lfloor>log 2 \<bar>x\<bar>\<rfloor> = k"
    using floor_log2_eq [OF assms] by simp
  ultimately show ?thesis by (simp add: rnd64_def quantum_def)
qed

lemma is_float64_scaled:
  assumes "2 ^ 52 \<le> \<bar>m\<bar>" and "\<bar>m\<bar> < 2 ^ 53"
  shows "is_float64 (of_int m * 2 powr of_int e)"
proof -
  define x :: real where "x = of_int m * 2 powr of_int e"
  have ax: "\<bar>x\<bar> = of_int \<bar>m\<bar> * 2 powr of_int e"
    by (simp add: x_def abs_mult)
  have "(2::real) ^ 52 \<le> of_int \<bar>m\<bar>"
    using assms(1) by (metis of_int_le_iff of_int_numeral of_int_power)
  then have "2 ^ 52 * 2 powr of_int e \<le> \<bar>x\<bar>"
    unfolding ax by (intro mult_right_mono) simp_all
  moreover have "(2::real) ^ 52 * 2 powr of_int e = 2 powr of_int (e + 52)"
    by (simp add: powr_add)
  ultimately have lo: "2 powr of_int (e + 52) \<le> \<bar>x\<bar>" by simp
  have "of_int \<bar>m\<bar> < (2::real) ^ 53"
    using assms(2) by (metis of_int_less_iff of_int_numeral of_int_power)
  then have "\<bar>x\<bar> < 2 ^ 53 * 2 powr of_int e"
    unfolding ax by (intro mult_strict_right_mono) simp_all
  moreover have "(2::real) ^ 53 * 2 powr of_int e = 2 powr (of_int (e + 52) + 1)"
    by (simp add: powr_add)
  ultimately have hi: "\<bar>x\<bar> < 2 powr (of_int (e + 52) + 1)" by simp
  have "\<lfloor>log 2 \<bar>x\<bar>\<rfloor> = e + 52"
    using lo hi by (rule floor_log2_eq)
  then have q: "quantum x = 2 powr of_int e"
    by (simp add: quantum_def)
  have "x / quantum x = of_int m"
    unfolding q by (simp add: x_def)
  then have "rint (x / quantum x) = m"
    by (simp only: rint_of_int)
  then have "rnd64 x = (if x = 0 then 0 else of_int m * 2 powr of_int e)"
    by (simp only: rnd64_def q)
  then have "rnd64 x = x"
    by (simp add: x_def)
  then show ?thesis by (simp add: is_float64_def x_def)
qed

lemma is_float64_1: "is_float64 1"
proof -
  have "1 / quantum 1 = of_int (2 ^ 52)"
    by (simp add: quantum_def powr_minus field_simps)
  then have "rint (1 / quantum 1) = 2 ^ 52"
    by (simp only: rint_of_int)
  then show ?thesis
    by (simp add: is_float64_def rnd64_def) (simp add: quantum_def powr_minus)
qed

lemma is_float64_half: "is_float64 (1 / 2)"
proof -
  have e: "(of_int (2 ^ 52) :: real) * 2 powr of_int (- 53) = 1 / 2"
    by (simp add: powr_minus)
  have "is_float64 (of_int (2 ^ 52) * 2 powr of_int (- 53))"
    by (rule is_float64_scaled) simp_all
  then show ?thesis by (simp only: e)
qed

lemma is_float64_tiny: "is_float64 (- (1 / 2 ^ 60))"
proof -
  have e: "(of_int (- (2 ^ 52)) :: real) * 2 powr of_int (- 112) = - (1 / 2 ^ 60)"
    by (simp add: powr_minus)
  have "is_float64 (of_int (- (2 ^ 52)) * 2 powr of_int (- 112))"
    by (rule is_float64_scaled) simp_all
  then show ?thesis by (simp only: e)
qed

lemma float_significand:
  assumes "is_float64 p" and "0 < p"
  obtains m :: int where "p = of_int m * quantum p" and "2 ^ 52 \<le> m" and "m < 2 ^ 53"
proof -
  define m where "m = rint (p / quantum p)"
  have p: "p = of_int m * quantum p"
    using assms by (simp add: is_float64_def rnd64_def m_def)
  have qs: "2 ^ 53 * quantum p = 2 powr (of_int \<lfloor>log 2 p\<rfloor> + 1)"
    using assms(2) by (simp only: quantum_scale abs_of_pos)
  have "(2::real) powr (of_int \<lfloor>log 2 p\<rfloor> - 52) * 2 powr 52 = 2 powr of_int \<lfloor>log 2 p\<rfloor>"
    by (simp only: powr_add [symmetric]) simp
  then have ql: "2 ^ 52 * quantum p = 2 powr of_int \<lfloor>log 2 p\<rfloor>"
    using assms(2) by (simp add: quantum_def mult.commute)
  have "2 ^ 52 * quantum p \<le> of_int m * quantum p"
    using binade(1) [OF assms(2)] p ql by simp
  then have "(2::real) ^ 52 \<le> of_int m"
    using quantum_pos [of p] by (simp only: mult_le_cancel_right_pos)
  then have lo: "2 ^ 52 \<le> m"
    by (metis of_int_le_iff of_int_numeral of_int_power)
  have "of_int m * quantum p < 2 ^ 53 * quantum p"
    using binade(2) [OF assms(2)] p qs by simp
  then have "of_int m < (2::real) ^ 53"
    using quantum_pos [of p] by (simp only: mult_less_cancel_right_pos)
  then have hi: "m < 2 ^ 53"
    by (metis of_int_less_iff of_int_numeral of_int_power)
  from p lo hi show ?thesis by (rule that)
qed

lemma rnd64_absorb:
  assumes "is_float64 p" and "1 / 2 \<le> p"
  shows "rnd64 (p - 1 / 2 ^ 60) = p"
proof -
  define d :: real where "d = 1 / 2 ^ 60"
  define k where "k = \<lfloor>log 2 p\<rfloor>"
  define q where "q = quantum p"
  have p0: "0 < p" using assms(2) by simp
  have "(2::real) powr (- 1) \<le> p" using assms(2) by (simp add: powr_minus)
  then have "- 1 \<le> log 2 p" using p0 by (simp add: le_log_iff)
  then have kge: "- 1 \<le> k" unfolding k_def by (simp add: le_floor_iff)
  have qk: "q = 2 powr (of_int k - 52)"
    using p0 by (simp add: q_def quantum_def k_def)
  have q0: "0 < q" by (simp add: q_def quantum_pos)
  have "(2::real) powr (- 53) \<le> 2 powr (of_int k - 52)"
    using kge by (intro powr_mono) simp_all
  then have qlow: "1 / 2 ^ 53 \<le> q" by (simp add: qk powr_minus field_simps)
  have dq: "128 * d \<le> q" using qlow by (simp add: d_def)
  have d0: "0 < d" by (simp add: d_def)
  obtain m :: int where pm: "p = of_int m * q" and mlo: "2 ^ 52 \<le> m" and mhi: "m < 2 ^ 53"
    using float_significand [OF assms(1) p0] unfolding q_def by blast
  have pk: "2 ^ 52 * q = 2 powr of_int k"
  proof -
    have "(2::real) powr 52 * 2 powr (of_int k - 52) = 2 powr of_int k"
      by (simp only: powr_add [symmetric]) simp
    then show ?thesis by (simp add: qk)
  qed
  have pk1: "2 ^ 53 * q = 2 powr (of_int k + 1)"
  proof -
    have "(53::real) + (of_int k - 52) = of_int k + 1" by simp
    then have "(2::real) powr 53 * 2 powr (of_int k - 52) = 2 powr (of_int k + 1)"
      by (simp only: powr_add [symmetric])
    then show ?thesis by (simp add: qk)
  qed
  have mr_lo: "(2::real) ^ 52 \<le> of_int m"
    using mlo by (metis of_int_le_iff of_int_numeral of_int_power)
  have mr_hi: "of_int m < (2::real) ^ 53"
    using mhi by (metis of_int_less_iff of_int_numeral of_int_power)
  have "rnd64 (p - d) = p"
  proof (cases "m = 2 ^ 52")
    case False
    with mlo have "2 ^ 52 + 1 \<le> m" by linarith
    then have "(of_int (2 ^ 52 + 1) :: real) \<le> of_int m"
      by (simp only: of_int_le_iff)
    then have "(2::real) ^ 52 + 1 \<le> of_int m"
      by simp
    then have "(2 ^ 52 + 1) * q \<le> of_int m * q"
      using q0 by (simp only: mult_le_cancel_right_pos)
    then have "2 ^ 52 * q + q \<le> p" by (simp add: pm algebra_simps)
    then have lo: "2 powr of_int k \<le> p - d" using dq d0 pk by linarith
    have "p < 2 ^ 53 * q"
      unfolding pm using mr_hi q0 by (simp only: mult_less_cancel_right_pos)
    then have hi: "p - d < 2 powr (of_int k + 1)" using d0 pk1 by linarith
    have r: "rnd64 (p - d) = of_int (rint ((p - d) / q)) * q"
      using rnd64_in_binade [OF lo hi] by (simp only: qk)
    have "(p - d) / q = of_int m - d / q"
      using q0 by (simp add: pm diff_divide_distrib)
    moreover have "0 \<le> d / q" "d / q \<le> 1 / 128"
      using d0 q0 dq by (simp_all add: field_simps)
    ultimately have "\<bar>(p - d) / q - of_int m\<bar> < 1 / 2" by linarith
    then have "rint ((p - d) / q) = m" by (rule rint_near)
    then have "rnd64 (p - d) = of_int m * q" by (simp only: r)
    then show ?thesis by (simp only: pm [symmetric])
  next
    case True
    then have p2: "p = 2 ^ 52 * q" by (simp add: pm)
    define h where "h = q / 2"
    have hk: "h = 2 powr (of_int (k - 1) - 52)"
    proof -
      have "(2::real) powr (of_int k - 52) = 2 powr (of_int (k - 1) - 52) * 2 powr 1"
        by (simp only: powr_add [symmetric]) simp
      then show ?thesis by (simp add: h_def qk)
    qed
    have h0: "0 < h" using q0 by (simp add: h_def)
    have ph: "p = 2 ^ 53 * h" by (simp add: p2 h_def)
    have "2 ^ 52 * h = 2 powr of_int (k - 1)"
    proof -
      have "(2::real) powr 52 * 2 powr (of_int (k - 1) - 52) = 2 powr of_int (k - 1)"
        by (simp only: powr_add [symmetric]) simp
      then show ?thesis by (simp add: hk)
    qed
    moreover have "2 ^ 52 * h \<le> p - d"
      using dq d0 q0 by (simp add: p2 h_def)
    ultimately have lo: "2 powr of_int (k - 1) \<le> p - d" by simp
    have "p = 2 powr (of_int (k - 1) + 1)" using p2 pk by simp
    then have hi: "p - d < 2 powr (of_int (k - 1) + 1)" using d0 by linarith
    have r: "rnd64 (p - d) = of_int (rint ((p - d) / h)) * h"
      using rnd64_in_binade [OF lo hi] by (simp only: hk)
    have "(p - d) / h = of_int (2 ^ 53) - d / h"
      using h0 by (simp add: ph diff_divide_distrib)
    moreover have "0 \<le> d / h" "d / h \<le> 1 / 64"
      using d0 h0 dq by (simp_all add: field_simps h_def)
    ultimately have "\<bar>(p - d) / h - of_int (2 ^ 53)\<bar> < 1 / 2" by linarith
    then have "rint ((p - d) / h) = 2 ^ 53" by (rule rint_near)
    then have "rnd64 (p - d) = of_int (2 ^ 53) * h" by (simp only: r)
    then show ?thesis by (simp add: ph)
  qed
  then show ?thesis by (simp only: d_def)
qed

lemma c_fmod_bounds:
  assumes "0 < b"
  shows "- b < c_fmod a b" and "c_fmod a b < b"
proof -
  define r where "r = a / b - of_int (if a / b \<ge> 0 then \<lfloor>a / b\<rfloor> else \<lceil>a / b\<rceil>)"
  have m: "c_fmod a b = b * r"
    unfolding c_fmod_def r_def using assms by (simp add: algebra_simps)
  have "-1 < r" "r < 1"
    unfolding r_def by (auto; linarith)+
  then have "b * (-1) < b * r" "b * r < b * 1"
    using assms by (simp_all only: mult_less_cancel_left_pos)
  then show "- b < c_fmod a b" and "c_fmod a b < b"
    by (simp_all add: m)
qed

lemma np_remainder_bounds:
  assumes "0 < b" and "is_float64 b"
  shows "0 \<le> np_remainder a b" and "np_remainder a b \<le> b"
proof -
  let ?m = "c_fmod a b"
  note bd = c_fmod_bounds [OF assms(1), of a]
  show "0 \<le> np_remainder a b"
  proof (cases "?m < 0")
    case True
    then have "np_remainder a b = rnd64 (?m + b)"
      using assms(1) by (simp add: np_remainder_def Let_def)
    moreover have "0 \<le> ?m + b" using bd by linarith
    ultimately show ?thesis by (simp add: rnd64_nonneg)
  next
    case False
    then have "np_remainder a b = ?m"
      using assms(1) by (auto simp add: np_remainder_def Let_def)
    with False show ?thesis by simp
  qed
  show "np_remainder a b \<le> b"
  proof (cases "?m < 0")
    case True
    then have "np_remainder a b = rnd64 (?m + b)"
      using assms(1) by (simp add: np_remainder_def Let_def)
    moreover have "0 \<le> ?m + b" "?m + b \<le> b" using bd True by linarith+
    ultimately show ?thesis using rnd64_le_float [OF _ _ assms(2)] by simp
  next
    case False
    then have "np_remainder a b = ?m"
      using assms(1) by (auto simp add: np_remainder_def Let_def)
    with bd show ?thesis by simp
  qed
qed

lemma fold_phase64_bounds:
  assumes "0 < p" and "is_float64 p"
  shows "0 \<le> fold_phase64 p t \<and> fold_phase64 p t \<le> 1"
proof -
  note r = np_remainder_bounds [OF assms, of t]
  have "0 \<le> np_remainder t p / p" using r(1) assms(1) by simp
  moreover have "np_remainder t p / p \<le> 1" using r(2) assms(1) by simp
  ultimately show ?thesis
    unfolding fold_phase64_def
    using rnd64_nonneg rnd64_le_float [OF _ _ is_float64_1] by simp
qed

lemma fold_phase_bounds:
  assumes "0 < p"
  shows "0 \<le> fold_phase p t \<and> fold_phase p t < 1"
proof -
  have "fold_phase p t = t / p - of_int \<lfloor>t / p\<rfloor>"
    using assms by (simp add: fold_phase_def py_mod_def field_simps)
  then show ?thesis by linarith
qed

lemma fold_phase64_tiny_negative:
  assumes "is_float64 p" and "1 / 2 \<le> p"
  shows "fold_phase64 p (- (1 / 2 ^ 60)) = 1"
proof -
  define d :: real where "d = 1 / 2 ^ 60"
  have d0: "0 < d" "d < 1 / 2" by (simp_all add: d_def)
  have p0: "0 < p" using assms(2) by simp
  have "- 1 < - d / p" "- d / p < 0"
    using d0 assms(2) p0 by (simp_all add: field_simps)
  then have "\<lceil>- d / p\<rceil> = 0" by (simp add: ceiling_eq_iff)
  then have "c_fmod (- d) p = - d"
    using \<open>- d / p < 0\<close> by (simp add: c_fmod_def)
  then have "np_remainder (- d) p = rnd64 (p - d)"
    using d0 p0 by (simp add: np_remainder_def Let_def)
  then have "np_remainder (- d) p = p"
    using rnd64_absorb [OF assms] by (simp add: d_def)
  then have "fold_phase64 p (- d) = rnd64 1"
    using p0 by (simp add: fold_phase64_def)
  then show ?thesis
    using is_float64_1 by (simp add: is_float64_def d_def)
qed

lemma periods_positive: "p \<in> set (periods self) \<Longrightarrow> 0 < p"
  by (auto simp: periods_def logspace_def)

lemma min_period_in_grid: "1 / 2 \<in> set (periods init)"
proof -
  define f :: "nat \<Rightarrow> real" where
    "f = (\<lambda>i. 10 powr (log 10 (1 / 2) + real i * ((log 10 50 - log 10 (1 / 2)) / real (1000 - 1))))"
  have "periods init = map f [0..<1000]"
    by (simp add: periods_def logspace_def linspace_def init_def f_def)
  moreover have "f 0 = 1 / 2"
    by (simp add: f_def)
  moreover have "(0::nat) \<in> set [0..<1000]"
    by simp
  ultimately show ?thesis
    by (metis image_eqI set_map)
qed

text \<open>
  C8, as stated, fails on the floats the source computes with. For the time
  \<open>- 1 / 2 ^ 60\<close> and the period \<open>0.5\<close>, \<^verbatim>\<open>fmod\<close> gives \<open>- 1 / 2 ^ 60\<close>, the sum
  \<open>0.5 - 1 / 2 ^ 60\<close> rounds to \<open>0.5\<close>, and the phase is \<open>0.5 / 0.5 = 1\<close>, outside \<open>[0, 1)\<close>.
  By \<open>fold_phase64_tiny_negative\<close> the same happens for every float period from 0.5
  upwards.
\<close>

theorem fold_phase_one_counterexample:
  "1 / 2 \<in> set (periods init) \<and> is_float64 (1 / 2) \<and> is_float64 (- (1 / 2 ^ 60))
   \<and> fold_phase64 (1 / 2) (- (1 / 2 ^ 60)) = 1"
  using min_period_in_grid is_float64_half is_float64_tiny
    fold_phase64_tiny_negative [OF is_float64_half]
  by simp

text \<open>
  C8, amended: for every time and every period of the search grid the folded phase
  lies in \<open>[0, 1)\<close> in exact arithmetic; as computed in binary64, for every positive float
  period, it lies in the closed interval \<open>[0, 1]\<close>.
\<close>

theorem fold_phase_range:
  "(\<forall>p \<in> set (periods self). \<forall>t. 0 \<le> fold_phase p t \<and> fold_phase p t < 1)
   \<and> (\<forall>p t. 0 < p \<and> is_float64 p \<longrightarrow> 0 \<le> fold_phase64 p t \<and> fold_phase64 p t \<le> 1)"
  using fold_phase_bounds periods_positive fold_phase64_bounds by blast

theorem fold_phase_range_witness:
  "1 / 2 \<in> set (periods init) \<and> fold_phase (1 / 2) (7 / 4) = 1 / 2
   \<and> 0 < (1 / 2 :: real) \<and> is_float64 (1 / 2)
   \<and> 0 \<le> fold_phase64 (1 / 2) (- (1 / 2 ^ 60)) \<and> fold_phase64 (1 / 2) (- (1 / 2 ^ 60)) \<le> 1"
proof -
  have "fold_phase (1 / 2) (7 / 4) = 1 / 2"
    by (simp add: fold_phase_def py_mod_def)
  moreover have "0 < (1 / 2 :: real) \<and> is_float64 (1 / 2)"
    using is_float64_half by simp
  ultimately show ?thesis
    using fold_phase_range [of init] min_period_in_grid by blast
qed

section \<open>Properties of the search loop\<close>

text \<open>The three nested loops are one pass over the list of grid points.\<close>

lemma foldl_concat_list: "foldl f a (concat xss) = foldl (foldl f) a xss"
  by (induction xss arbitrary: a) simp_all

lemma bls_body_step:
  "bls_body (map (\<lambda>(tm, f). (fold_phase p tm, f)) series) p d
     = (\<lambda>best t. bls_step series best (p, d, t))"
  by (intro ext) (simp add: bls_body_def bls_step_def grid_power_def candidate_def Let_def)

lemma bls_duration_loop_scan:
  "bls_duration_loop (map (\<lambda>(tm, f). (fold_phase p tm, f)) series) p
     = (\<lambda>best d. foldl (bls_step series) best (map (\<lambda>t. (p, d, t)) t0_fracs))"
  by (intro ext) (simp add: bls_duration_loop_def foldl_map bls_body_step)

lemma bls_period_loop_scan:
  "bls_period_loop series
     = (\<lambda>best p. foldl (bls_step series) best
                    (concat (map (\<lambda>d. map (\<lambda>t. (p, d, t)) t0_fracs) duration_fracs)))"
  by (intro ext)
    (simp add: bls_period_loop_def Let_def foldl_concat_list foldl_map bls_duration_loop_scan)

lemma box_least_squares_scan:
  "box_least_squares self series = foldl (bls_step series) bls_start (grid self)"
  by (simp add: box_least_squares_def grid_def foldl_concat_list foldl_map
        bls_period_loop_scan)

lemma candidate_power [simp]: "bls_power (candidate series g) = grid_power series g"
  by (cases g) (simp add: candidate_def)

text \<open>
  The pass either keeps its start value, and then no grid point has a larger power, or
  it returns the first grid point whose power no other grid point exceeds.
\<close>

lemma scan_first_max:
  "(foldl (bls_step series) best gs = best \<and> (\<forall>g \<in> set gs. grid_power series g \<le> bls_power best))
   \<or> (\<exists>pre g post. gs = pre @ g # post
         \<and> foldl (bls_step series) best gs = candidate series g
         \<and> bls_power best < grid_power series g
         \<and> (\<forall>h \<in> set pre. grid_power series h < grid_power series g)
         \<and> (\<forall>h \<in> set post. grid_power series h \<le> grid_power series g))"
proof (induction gs rule: rev_induct)
  case Nil
  then show ?case by simp
next
  case (snoc x gs)
  from snoc.IH show ?case
  proof (elim disjE conjE exE)
    assume keep: "foldl (bls_step series) best gs = best"
      and le: "\<forall>g \<in> set gs. grid_power series g \<le> bls_power best"
    show ?thesis
    proof (cases "grid_power series x > bls_power best")
      case True
      then have "foldl (bls_step series) best (gs @ [x]) = candidate series x"
        by (simp add: keep bls_step_def)
      moreover have "\<forall>h \<in> set gs. grid_power series h < grid_power series x"
        using le True by fastforce
      ultimately have "gs @ [x] = gs @ x # []
         \<and> foldl (bls_step series) best (gs @ [x]) = candidate series x
         \<and> bls_power best < grid_power series x
         \<and> (\<forall>h \<in> set gs. grid_power series h < grid_power series x)
         \<and> (\<forall>h \<in> set []. grid_power series h \<le> grid_power series x)"
        using True by simp
      then show ?thesis by blast
    next
      case False
      then have "foldl (bls_step series) best (gs @ [x]) = best"
        by (simp add: keep bls_step_def)
      moreover have "\<forall>g \<in> set (gs @ [x]). grid_power series g \<le> bls_power best"
        using le False by auto
      ultimately show ?thesis by blast
    qed
  next
    fix pre g post
    assume split: "gs = pre @ g # post"
      and res: "foldl (bls_step series) best gs = candidate series g"
      and gt: "bls_power best < grid_power series g"
      and before: "\<forall>h \<in> set pre. grid_power series h < grid_power series g"
      and after: "\<forall>h \<in> set post. grid_power series h \<le> grid_power series g"
    show ?thesis
    proof (cases "grid_power series x > grid_power series g")
      case True
      then have "foldl (bls_step series) best (gs @ [x]) = candidate series x"
        by (simp add: res bls_step_def)
      moreover have "\<forall>h \<in> set gs. grid_power series h < grid_power series x"
        using split before after True by fastforce
      moreover have "bls_power best < grid_power series x" using gt True by linarith
      ultimately have "gs @ [x] = gs @ x # []
         \<and> foldl (bls_step series) best (gs @ [x]) = candidate series x
         \<and> bls_power best < grid_power series x
         \<and> (\<forall>h \<in> set gs. grid_power series h < grid_power series x)
         \<and> (\<forall>h \<in> set []. grid_power series h \<le> grid_power series x)"
        by simp
      then show ?thesis by blast
    next
      case False
      then have "foldl (bls_step series) best (gs @ [x]) = candidate series g"
        by (simp add: res bls_step_def)
      moreover have "\<forall>h \<in> set (post @ [x]). grid_power series h \<le> grid_power series g"
        using after False by auto
      moreover have "gs @ [x] = pre @ g # (post @ [x])" using split by simp
      ultimately show ?thesis using gt before by blast
    qed
  qed
qed

lemma grid_power_nonneg: "0 \<le> grid_power series g"
  by (cases g) (simp add: grid_power_def calculate_bls_power_nonneg)

lemma bls_all_zero:
  assumes "\<forall>g \<in> set (grid self). grid_power series g = 0"
  shows "box_least_squares self series = bls_start"
  using scan_first_max [of series bls_start "grid self"] assms
  by (auto simp: box_least_squares_scan bls_start_def)

lemma bls_ge_grid_power:
  assumes "g \<in> set (grid self)"
  shows "grid_power series g \<le> bls_power (box_least_squares self series)"
proof -
  from scan_first_max [of series bls_start "grid self"]
  show ?thesis
  proof (elim disjE conjE exE)
    assume "foldl (bls_step series) bls_start (grid self) = bls_start"
      and "\<forall>g \<in> set (grid self). grid_power series g \<le> bls_power bls_start"
    then show ?thesis using assms by (simp add: box_least_squares_scan)
  next
    fix pre m post
    assume split: "grid self = pre @ m # post"
      and res: "foldl (bls_step series) bls_start (grid self) = candidate series m"
      and before: "\<forall>h \<in> set pre. grid_power series h < grid_power series m"
      and after: "\<forall>h \<in> set post. grid_power series h \<le> grid_power series m"
    from assms split have "g \<in> set pre \<or> g = m \<or> g \<in> set post" by auto
    then have "grid_power series g \<le> grid_power series m"
      using before after by (auto intro: less_imp_le)
    then show ?thesis using res by (simp add: box_least_squares_scan)
  qed
qed

text \<open>The periods of the grid ascend, and so do the periods along the traversal.\<close>

lemma sorted_map_mono:
  assumes "mono f" and "sorted xs"
  shows "sorted (map f xs)"
  unfolding sorted_map
  using assms(2) by (rule sorted_wrt_mono_rel [rotated]) (simp add: monoD [OF assms(1)])

lemma linspace_sorted:
  assumes "start \<le> stop"
  shows "sorted (linspace start stop num)"
proof -
  have "0 \<le> (stop - start) / real (num - 1)" using assms by simp
  then have "mono (\<lambda>i. start + real i * ((stop - start) / real (num - 1)))"
    by (intro monoI add_left_mono mult_right_mono) simp_all
  then show ?thesis
    unfolding linspace_def by (rule sorted_map_mono) simp
qed

lemma periods_sorted:
  assumes "0 < min_period self" and "min_period self \<le> max_period self"
  shows "sorted (periods self)"
proof -
  have "log 10 (min_period self) \<le> log 10 (max_period self)"
    using assms by simp
  then have "sorted (linspace (log 10 (min_period self)) (log 10 (max_period self)) 1000)"
    by (rule linspace_sorted)
  moreover have "mono (\<lambda>y :: real. 10 powr y)"
    by (intro monoI) simp
  ultimately show ?thesis
    unfolding periods_def logspace_def by (intro sorted_map_mono)
qed

lemma sorted_map_const:
  assumes "\<forall>x \<in> set xs. f x = a"
  shows "sorted (map f xs)"
proof -
  have "map f xs = replicate (length xs) a"
    using assms by (induction xs) simp_all
  then show ?thesis by simp
qed

lemma sorted_fst_concat:
  assumes "sorted ps" and "\<forall>p \<in> set ps. \<forall>g \<in> set (blk p). fst g = p"
  shows "sorted (map fst (concat (map blk ps)))"
  using assms
proof (induction ps)
  case Nil
  then show ?case by simp
next
  case (Cons a ps)
  have "sorted (map fst (blk a))"
    using Cons.prems(2) by (intro sorted_map_const [where a = a]) simp
  moreover have "sorted (map fst (concat (map blk ps)))"
    using Cons by simp
  moreover have "\<forall>x \<in> set (blk a). \<forall>y \<in> set (concat (map blk ps)). fst x \<le> fst y"
    using Cons.prems by auto
  ultimately show ?case by (simp add: sorted_append)
qed

lemma grid_sorted:
  assumes "0 < min_period self" and "min_period self \<le> max_period self"
  shows "sorted (map fst (grid self))"
  unfolding grid_def
  by (rule sorted_fst_concat [OF periods_sorted [OF assms]]) auto

lemma grid_member:
  "(p, d, t) \<in> set (grid self) \<longleftrightarrow>
     p \<in> set (periods self) \<and> d \<in> set duration_fracs \<and> t \<in> set t0_fracs"
  by (auto simp: grid_def)

lemma fifth_in_duration_fracs: "1 / 5 \<in> set duration_fracs"
proof -
  define f :: "nat \<Rightarrow> real" where "f = (\<lambda>i. 0.01 + real i * ((0.2 - 0.01) / real (20 - 1)))"
  have "duration_fracs = map f [0..<20]"
    by (simp add: duration_fracs_def linspace_def f_def)
  moreover have "f 19 = 1 / 5" by (simp add: f_def)
  moreover have "(19::nat) \<in> set [0..<20]" by simp
  ultimately show ?thesis by (metis image_eqI set_map)
qed

lemma zero_in_t0_fracs: "0 \<in> set t0_fracs"
proof -
  define f :: "nat \<Rightarrow> real" where "f = (\<lambda>i. 0 + real i * ((1 - 0) / real (50 - 1)))"
  have "t0_fracs = map f [0..<50]"
    by (simp add: t0_fracs_def linspace_def f_def)
  moreover have "f 0 = 0" by (simp add: f_def)
  moreover have "(0::nat) \<in> set [0..<50]" by simp
  ultimately show ?thesis by (metis image_eqI set_map)
qed

text \<open>A constant flux has power zero at every grid point.\<close>

lemma np_std_constant:
  assumes "\<forall>x \<in> set xs. x = c"
  shows "np_std xs = 0"
proof (cases "xs = []")
  case True
  then show ?thesis by (simp add: np_std_Nil)
next
  case False
  have xs: "xs = replicate (length xs) c"
    using assms by (induction xs) simp_all
  have "sum_list xs = real (length xs) * c"
    by (subst xs) (simp add: sum_list_replicate)
  then have m: "np_mean xs = c" using False by (simp add: np_mean_def)
  have "map (\<lambda>x. (x - c)\<^sup>2) xs = replicate (length xs) 0"
    using assms by (induction xs) simp_all
  then have "np_var xs = np_mean (replicate (length xs) 0)"
    by (simp only: np_var_def m)
  then have "np_var xs = 0"
    by (simp add: np_mean_def sum_list_replicate)
  then show ?thesis by (simp add: np_std_def)
qed

lemma grid_power_constant_flux:
  assumes "\<forall>(t, f) \<in> set series. f = c"
  shows "grid_power series g = 0"
proof -
  obtain p d t where g: "g = (p, d, t)" by (cases g) auto
  have "\<forall>x \<in> set (flux_out_transit (map (\<lambda>(tm, f). (fold_phase p tm, f)) series) t d). x = c"
    using assms by (auto simp: flux_out_transit_def)
  then have "np_std (flux_out_transit (map (\<lambda>(tm, f). (fold_phase p tm, f)) series) t d) = 0"
    by (rule np_std_constant)
  then show ?thesis
    by (simp add: g grid_power_def calculate_bls_power_cases)
qed

section \<open>Properties of the pipeline stages\<close>

lemma fit_cases:
  assumes "series \<noteq> []"
  shows "fit_transit_model minimize self series p t d = Inr None
       \<or> (\<exists>f. fit_transit_model minimize self series p t d = Inr (Some f)
              \<and> length (model_flux f) = length series)"
  using assms
  by (auto simp: fit_transit_model_def Let_def transit_model_def
      split: option.splits prod.splits)

lemma fit_fixed:
  assumes "series \<noteq> []"
  shows "\<exists>f. fit_transit_model (fixed_minimizer (dp, pp, tt, dd)) self series p t d = Inr (Some f)
           \<and> model_flux f = transit_model (map fst series) (dp, pp, tt, dd)"
  using assms by (simp add: fit_transit_model_def fixed_minimizer_def Let_def)

lemma significance_defined:
  assumes "fm \<noteq> []"
  shows "\<exists>sig. calculate_detection_significance fm = Inr sig"
  using assms by (simp add: calculate_detection_significance_def Let_def)

lemma py_round_lower: "x - 1 / (2 * 10 ^ n) \<le> py_round x n"
proof -
  have "x * 10 ^ n - 1 / 2 \<le> of_int (rint (x * 10 ^ n))"
    using rint_bounds [of "x * 10 ^ n"] by simp
  then have "(x * 10 ^ n - 1 / 2) / 10 ^ n \<le> of_int (rint (x * 10 ^ n)) / 10 ^ n"
    by (simp add: divide_right_mono)
  then show ?thesis by (simp add: py_round_def field_simps)
qed

lemma np_std_small:
  assumes "np_var xs \<le> 1 / 1000000"
  shows "np_std xs \<le> 1 / 1000"
proof -
  have "sqrt (np_var xs) \<le> sqrt ((1 / 1000)\<^sup>2)"
    using assms by (simp only: real_sqrt_le_iff) (simp add: power2_eq_square)
  then show ?thesis by (simp add: np_std_def)
qed

lemma np_std_pos:
  assumes "0 < np_var xs"
  shows "0 < np_std xs"
  using assms by (simp add: np_std_def)

lemma significance_strong:
  assumes "fm \<noteq> []"
    and "0 < np_var (map (\<lambda>(f, m). f - m) fm)"
    and "np_var (map (\<lambda>(f, m). f - m) fm) \<le> 1 / 1000000"
    and "1 / 100 \<le> Max (set (map snd fm)) - Min (set (map snd fm))"
  shows "\<exists>sig. calculate_detection_significance fm = Inr sig
           \<and> np_gt (snr sig) 5 \<and> confidence_percent sig = 100"
proof -
  define s where "s = np_std (map (\<lambda>(f, m). f - m) fm)"
  define d where "d = Max (set (map snd fm)) - Min (set (map snd fm))"
  define x where "x = d / s"
  have s_pos: "0 < s" unfolding s_def using assms(2) by (rule np_std_pos)
  have s_le: "s \<le> 1 / 1000" unfolding s_def using assms(3) by (rule np_std_small)
  have "10 * s \<le> d" using s_le assms(4) by (simp add: d_def)
  then have big: "10 \<le> x" using s_pos by (simp add: x_def field_simps)
  have q: "np_div d s = Finite x" using s_pos by (simp add: np_div_def x_def)
  have r: "5 < py_round x 2"
    using py_round_lower [of x 2] big by simp
  have "100 \<le> (x - 3) / 7 * 100"
    using big by simp
  then have c: "clamp_confidence (Finite x) = 100"
    by (simp only: clamp_confidence.simps min_absorb1)
  show ?thesis
    using assms(1) r
    unfolding calculate_detection_significance_def Let_def s_def [symmetric] d_def [symmetric]
      q c
    by simp
qed

lemma significance_constant_model:
  assumes "fm \<noteq> []" and "\<forall>(f, m) \<in> set fm. m = c"
  shows "\<exists>sig. calculate_detection_significance fm = Inr sig \<and> \<not> np_gt (snr sig) 5"
proof -
  have "set (map snd fm) = {c}"
    using assms by (cases fm) auto
  then have d: "Max (set (map snd fm)) - Min (set (map snd fm)) = 0" by simp
  have "np_div 0 s = Finite 0 \<or> np_div 0 s = NaN" for s
    by (simp add: np_div_def)
  then have "\<not> np_gt (np_round (np_div 0 s) 2) 5" for s
    by (metis np_gt.simps(1,4) np_round.simps(1,4) py_round_0 not_numeral_less_zero)
  then show ?thesis
    using assms(1) unfolding calculate_detection_significance_def Let_def d
    by simp
qed

text \<open>The run of the pipeline in each of its three outcomes past preprocessing.\<close>

lemma analyze_no_signal:
  assumes "100 \<le> length data" and "50 \<le> length (preprocess_lightcurve data)"
    and "bls_power (box_least_squares self (preprocess_lightcurve data)) < detection_threshold self"
  shows "analyze_lightcurve minimize self (Rows data)
           = (no_signal_result (box_least_squares self (preprocess_lightcurve data)),
              [Preprocess, BLS_search])"
  using assms by (simp add: analyze_lightcurve_def Let_def)

lemma analyze_fit_failed:
  assumes "100 \<le> length data" and "50 \<le> length (preprocess_lightcurve data)"
    and "\<not> bls_power (box_least_squares self (preprocess_lightcurve data))
            < detection_threshold self"
    and "fit_transit_model minimize self (preprocess_lightcurve data)
           (bls_period (box_least_squares self (preprocess_lightcurve data)))
           (bls_t0 (box_least_squares self (preprocess_lightcurve data)))
           (bls_duration (box_least_squares self (preprocess_lightcurve data))) = Inr None"
  shows "analyze_lightcurve minimize self (Rows data)
           = (fit_failed_result, [Preprocess, BLS_search, Fit])"
  using assms by (simp add: analyze_lightcurve_def Let_def)

lemma analyze_fitted:
  assumes "100 \<le> length data" and "50 \<le> length (preprocess_lightcurve data)"
    and "\<not> bls_power (box_least_squares self (preprocess_lightcurve data))
            < detection_threshold self"
    and "fit_transit_model minimize self (preprocess_lightcurve data)
           (bls_period (box_least_squares self (preprocess_lightcurve data)))
           (bls_t0 (box_least_squares self (preprocess_lightcurve data)))
           (bls_duration (box_least_squares self (preprocess_lightcurve data))) = Inr (Some f)"
    and "calculate_detection_significance
           (zip (map snd (preprocess_lightcurve data)) (model_flux f)) = Inr sig"
  shows "analyze_lightcurve minimize self (Rows data)
           = (final_result (box_least_squares self (preprocess_lightcurve data)) f
                (calculate_planet_properties (fit_depth f) (fit_period f) 1) sig,
              [Preprocess, BLS_search, Fit, Properties, Significance])"
  using assms by (simp add: analyze_lightcurve_def Let_def)

lemma get_no_signal:
  "get (no_signal_result bls) ''planet_detected'' = Some (JBool False)"
  "get (no_signal_result bls) ''confidence'' = Some (jreal 15)"
  "get_in (no_signal_result bls) ''analysis'' ''message''
     = Some (JStr ''No significant periodic signal detected'')"
  "get_in (no_signal_result bls) ''analysis'' ''best_period''
     = Some (jreal (py_round (bls_period bls) 3))"
  "get_in (no_signal_result bls) ''analysis'' ''bls_power''
     = Some (jreal (py_round (bls_power bls) 2))"
  "get (no_signal_result bls) ''planet_properties'' = None"
  by (simp_all add: no_signal_result_def get_in_def)

lemma get_fit_failed:
  "get fit_failed_result ''planet_detected'' = Some (JBool False)"
  "get fit_failed_result ''confidence'' = Some (jreal 25)"
  "get fit_failed_result ''planet_properties'' = None"
  by (simp_all add: fit_failed_result_def)

lemma get_final:
  "get (final_result bls f props sig) ''planet_detected''
     = Some (JBool (np_gt (snr sig) 5 \<and> confidence_percent sig > 70))"
  "get (final_result bls f props sig) ''confidence'' = Some (jreal (confidence_percent sig))"
  "get (final_result bls f props sig) ''planet_properties''
     = Some (if np_gt (snr sig) 5 \<and> confidence_percent sig > 70
             then planet_properties_json props else JNull)"
  by (simp_all add: final_result_def Let_def)

lemma get_error:
  "get (error_result msg) ''planet_detected'' = None"
  "get (error_result msg) ''planet_properties'' = None"
  "get (error_result msg) ''error'' = Some (JStr msg)"
  by (simp_all add: error_result_def)

lemma finite_rows_all_nan: "finite_rows (replicate n (NaN, NaN)) = []"
  by (induction n) simp_all

lemma finite_rows_all_inf: "finite_rows (replicate n (PosInf, y)) = []"
  by (induction n) simp_all

lemma as_raw_length [simp]: "length (as_raw series) = length series"
  by (simp add: as_raw_def)

section \<open>The example light curves\<close>

lemma block_snd: "map snd (block start flux n) = replicate n flux"
  by (simp add: block_def comp_def map_replicate_const)

lemma block_length [simp]: "length (block start flux n) = n"
  by (simp add: block_def)

lemma block_fst_sorted: "sorted (map fst (block start flux n))"
proof -
  have "mono (\<lambda>i. start + real i / 2)"
    by (intro monoI) simp
  then have "sorted (map (\<lambda>i. start + real i / 2) [0..<n])"
    by (rule sorted_map_mono) simp
  then show ?thesis by (simp add: block_def comp_def)
qed

lemma block_fst_bounds:
  assumes "(a, b) \<in> set (block start flux n)"
  shows "start \<le> a \<and> a < start + real n / 2"
  using assms by (auto simp: block_def)

lemma fold_phase_half_shift: "fold_phase (1 / 2) (t + real i / 2) = fold_phase (1 / 2) t"
proof -
  have "(t + real i / 2) / (1 / 2) = t / (1 / 2) + of_int (int i)"
    by (simp add: field_simps)
  then have "\<lfloor>(t + real i / 2) / (1 / 2)\<rfloor> = \<lfloor>t / (1 / 2)\<rfloor> + int i"
    by (simp only: floor_add_int)
  then show ?thesis
    by (simp add: fold_phase_def py_mod_def field_simps)
qed

lemma block_fold:
  "map (\<lambda>(tm, f). (fold_phase (1 / 2) tm, f)) (block start flux n)
     = replicate n (fold_phase (1 / 2) start, flux)"
  by (simp add: block_def comp_def fold_phase_half_shift map_replicate_const)

lemma transit_model_alt:
  assumes "p \<noteq> 0"
  shows "transit_model time (depth, p, t0_v, dur)
     = map (\<lambda>t. if \<bar>(if fold_phase p (t - t0_v) > 0.5 then fold_phase p (t - t0_v) - 1
                        else fold_phase p (t - t0_v)) * p\<bar> < dur / 2
                 then 1 - depth else 1) time"
  using assms by (simp add: transit_model_def fold_phase_def Let_def)

lemma transit_model_block:
  "transit_model (map fst (block start flux n)) (depth, 1 / 2, 0, dur)
     = replicate n (if \<bar>(if fold_phase (1 / 2) start > 0.5 then fold_phase (1 / 2) start - 1
                           else fold_phase (1 / 2) start) * (1 / 2)\<bar> < dur / 2
                    then 1 - depth else 1)"
  by (simp add: transit_model_alt block_def comp_def fold_phase_half_shift map_replicate_const)

lemma transit_model_append:
  "transit_model (xs @ ys) prm = transit_model xs prm @ transit_model ys prm"
  by (cases prm) (simp add: transit_model_def)

lemma fold_phase_0: "fold_phase (1 / 2) 0 = 0"
  by (simp add: fold_phase_def py_mod_def)

lemma fold_phase_quarter:
  "fold_phase (1 / 2) (41 / 4) = 1 / 2" "fold_phase (1 / 2) (81 / 4) = 1 / 2"
  "fold_phase (1 / 2) (121 / 4) = 1 / 2"
  by (simp_all add: fold_phase_def py_mod_def)

text \<open>
  The transit light curve passes preprocessing unchanged, has BLS power of at least 7
  at the grid point with period 0.5, duration fraction 0.2 and phase offset 0, and is
  matched by the box model with depth 0.01.
\<close>

lemma transit_flux:
  "map snd transit_series
     = replicate 20 (99 / 100) @ replicate 20 (999 / 1000) @ replicate 20 1
       @ replicate 40 (1001 / 1000)"
  by (simp add: transit_series_def block_snd)

lemma transit_sorted: "sorted (map fst transit_series)"
  unfolding transit_series_def map_append
  by (auto simp: sorted_append block_fst_sorted dest!: block_fst_bounds)

lemma transit_folded:
  "map (\<lambda>(tm, f). (fold_phase (1 / 2) tm, f)) transit_series
     = replicate 20 (0, 99 / 100) @ replicate 20 (1 / 2, 999 / 1000) @ replicate 20 (1 / 2, 1)
       @ replicate 40 (1 / 2, 1001 / 1000)"
  by (simp add: transit_series_def block_fold fold_phase_0 fold_phase_quarter)

lemma transit_model_true:
  "transit_model (map fst transit_series) (1 / 100, 1 / 2, 0, 1 / 10)
     = replicate 20 (99 / 100) @ replicate 80 1"
proof -
  have "replicate 20 (1::real) @ replicate 20 1 @ replicate 40 1 = replicate 80 1"
    by (simp add: replicate_add [symmetric])
  then show ?thesis
    by (simp add: transit_series_def transit_model_append transit_model_block fold_phase_0
          fold_phase_quarter)
qed

lemma transit_model_flat:
  "transit_model (map fst transit_series) (0, 1 / 2, 0, 1 / 10) = replicate 100 1"
proof -
  have "replicate 20 (1::real) @ replicate 20 1 @ replicate 20 1 @ replicate 40 1
          = replicate 100 1"
    by (simp add: replicate_add [symmetric])
  then show ?thesis
    by (simp add: transit_series_def transit_model_append transit_model_block fold_phase_0
          fold_phase_quarter)
qed

lemma transit_median: "np_median (map snd transit_series) = 1"
proof -
  let ?flux = "replicate 20 (99 / 100) @ replicate 20 (999 / 1000) @ replicate 20 1
               @ replicate 40 (1001 / 1000 :: real)"
  have "sorted ?flux" by (simp add: sorted_append)
  then have "sort ?flux = ?flux" by (rule sorted_sort_id)
  moreover have "?flux ! 49 = 1" "?flux ! 50 = 1"
    by (simp_all add: nth_append)
  ultimately show ?thesis
    by (simp add: np_median_def transit_flux Let_def)
qed

lemma transit_var: "np_var (map snd transit_series) = 434 / 25000000"
  by (simp add: transit_flux np_var_def np_mean_def sum_list_replicate map_replicate
        power2_eq_square)

lemma transit_length [simp]: "length transit_series = 100"
  by (simp add: transit_series_def)

lemma transit_nonempty: "transit_series \<noteq> []"
proof
  assume "transit_series = []"
  then have "length transit_series = 0" by (simp only: list.size)
  then show False by simp
qed

lemma transit_flux_values:
  assumes "(t, f) \<in> set transit_series"
  shows "f = 99 / 100 \<or> f = 999 / 1000 \<or> f = 1 \<or> f = 1001 / 1000"
proof -
  from assms have "f \<in> set (map snd transit_series)" by force
  then show ?thesis by (auto simp: transit_flux)
qed

lemma preprocess_transit: "preprocess_lightcurve transit_rows = transit_series"
proof -
  note ne = transit_nonempty
  have srt: "sort_key fst transit_series = transit_series"
    by (rule sort_key_id_if_sorted) (rule transit_sorted)
  have "\<forall>(t, f) \<in> set transit_series. \<bar>f - 1\<bar> < 3 * np_std (map snd transit_series)"
  proof clarify
    fix t f
    assume "(t, f) \<in> set transit_series"
    from transit_flux_values [OF this]
    show "\<bar>f - 1\<bar> < 3 * np_std (map snd transit_series)"
      unfolding clip_iff transit_var
      by (elim disjE; hypsubst; simp add: power2_eq_square)
  qed
  then have keep: "filter (\<lambda>(t, f). \<bar>f - 1\<bar> < 3 * np_std (map snd transit_series))
                     transit_series = transit_series"
    by (simp add: filter_id_conv)
  show ?thesis
    by (simp add: preprocess_lightcurve_def transit_rows_def finite_rows_as_raw srt ne
          transit_median normalize_by_one keep)
qed

lemma transit_grid_point: "(1 / 2, 1 / 5, 0) \<in> set (grid init)"
  by (simp add: grid_member min_period_in_grid fifth_in_duration_fracs zero_in_t0_fracs)

lemma transit_in:
  "flux_in_transit (map (\<lambda>(tm, f). (fold_phase (1 / 2) tm, f)) transit_series) 0 (1 / 5)
     = replicate 20 (99 / 100)"
  by (simp add: transit_folded flux_in_transit_def transit_mask_def filter_replicate)

lemma transit_out:
  "flux_out_transit (map (\<lambda>(tm, f). (fold_phase (1 / 2) tm, f)) transit_series) 0 (1 / 5)
     = replicate 20 (999 / 1000) @ replicate 20 1 @ replicate 40 (1001 / 1000)"
  by (simp add: transit_folded flux_out_transit_def transit_mask_def filter_replicate)

lemma transit_out_var:
  "np_var (replicate 20 (999 / 1000) @ replicate 20 1 @ replicate 40 (1001 / 1000))
     = 11 / 16000000"
  by (simp add: np_var_def np_mean_def sum_list_replicate map_replicate power2_eq_square)

lemma transit_grid_power: "7 \<le> grid_power transit_series (1 / 2, 1 / 5, 0)"
proof -
  let ?out = "replicate 20 (999 / 1000) @ replicate 20 1 @ replicate 40 (1001 / 1000 :: real)"
  have s_le: "np_std ?out \<le> 1 / 1000"
    by (rule np_std_small) (simp add: transit_out_var)
  have s_pos: "0 < np_std ?out"
    by (rule np_std_pos) (simp add: transit_out_var)
  have m_out: "np_mean ?out = 4001 / 4000"
    by (simp add: np_mean_def sum_list_replicate)
  have m_in: "np_mean (replicate 20 (99 / 100 :: real)) = 99 / 100"
    by (simp add: np_mean_def sum_list_replicate)
  have r: "sqrt (real (20 * 80) / real (20 + 80)) = 4"
  proof -
    have "sqrt (real (20 * 80) / real (20 + 80)) = sqrt (4\<^sup>2)" by simp
    then show ?thesis by (simp only: real_sqrt_abs)
  qed
  have "grid_power transit_series (1 / 2, 1 / 5, 0)
          = max 0 ((4001 / 4000 - 99 / 100) * 4 / np_std ?out)"
    using s_pos
    by (simp add: grid_power_def calculate_bls_power_cases transit_in transit_out m_out m_in r)
  moreover have "7 \<le> (4001 / 4000 - 99 / 100) * 4 / np_std ?out"
    using s_le s_pos by (simp add: field_simps)
  ultimately show ?thesis by simp
qed

lemma transit_bls_power:
  "7 \<le> bls_power (box_least_squares init transit_series)"
  using transit_grid_power bls_ge_grid_power [OF transit_grid_point, of transit_series]
  by linarith

lemma transit_fm_true:
  "zip (map snd transit_series) (replicate 20 (99 / 100 :: real) @ replicate 80 1)
     = replicate 20 (99 / 100, 99 / 100) @ replicate 20 (999 / 1000, 1) @ replicate 20 (1, 1)
       @ replicate 40 (1001 / 1000, 1)"
proof -
  have h: "replicate 80 (1::real) = replicate 20 1 @ replicate 20 1 @ replicate 40 1"
    by (simp add: replicate_add [symmetric])
  show ?thesis
    unfolding transit_flux h by (simp add: zip_replicate)
qed

lemma transit_significance:
  "\<exists>sig. calculate_detection_significance
            (zip (map snd transit_series) (replicate 20 (99 / 100 :: real) @ replicate 80 1))
          = Inr sig
         \<and> np_gt (snr sig) 5 \<and> confidence_percent sig = 100"
proof (rule significance_strong)
  let ?fm = "zip (map snd transit_series) (replicate 20 (99 / 100 :: real) @ replicate 80 1)"
  show "?fm \<noteq> []" by (simp add: transit_fm_true)
  have v: "np_var (map (\<lambda>(f, m). f - m) ?fm) = 7 / 12500000"
    by (simp add: transit_fm_true np_var_def np_mean_def sum_list_replicate map_replicate
          power2_eq_square)
  show "0 < np_var (map (\<lambda>(f, m). f - m) ?fm)" by (simp add: v)
  show "np_var (map (\<lambda>(f, m). f - m) ?fm) \<le> 1 / 1000000" by (simp add: v)
  have "set (map snd ?fm) = {99 / 100, 1 :: real}"
    by (auto simp: transit_fm_true)
  then show "1 / 100 \<le> Max (set (map snd ?fm)) - Min (set (map snd ?fm))"
    by simp
qed

lemma transit_rows_length: "100 \<le> length transit_rows"
  by (simp add: transit_rows_def)

lemma transit_cleaned_length: "50 \<le> length (preprocess_lightcurve transit_rows)"
  by (simp add: preprocess_transit)

lemma transit_gate:
  "detection_threshold init
     \<le> bls_power (box_least_squares init (preprocess_lightcurve transit_rows))"
  using transit_bls_power by (simp add: preprocess_transit init_def)

text \<open>
  The flat light curve loses its outlier in preprocessing; the 99 remaining rows have
  constant flux.
\<close>

lemma flat_flux: "map snd (flat_series @ [(99 / 2, 2)]) = replicate 99 1 @ [2]"
  by (simp add: flat_series_def block_snd)

lemma flat_sorted: "sorted (map fst (flat_series @ [(99 / 2, 2)]))"
  unfolding flat_series_def map_append
  by (auto simp: sorted_append block_fst_sorted dest!: block_fst_bounds)

lemma flat_median: "np_median (replicate 99 1 @ [2]) = 1"
proof -
  let ?flux = "replicate 99 1 @ [2 :: real]"
  have "sorted ?flux" by (simp add: sorted_append)
  then have "sort ?flux = ?flux" by (rule sorted_sort_id)
  moreover have "?flux ! 49 = 1" "?flux ! 50 = 1"
    by (simp_all add: nth_append)
  ultimately show ?thesis
    by (simp add: np_median_def Let_def)
qed

lemma flat_var: "np_var (replicate 99 1 @ [2]) = 99 / 10000"
  by (simp add: np_var_def np_mean_def sum_list_replicate map_replicate power2_eq_square)

lemma flat_constant: "\<forall>(t, f) \<in> set flat_series. f = 1"
  by (auto simp: flat_series_def block_def)

lemma preprocess_flat: "preprocess_lightcurve flat_rows = flat_series"
proof -
  have srt: "sort_key fst (flat_series @ [(99 / 2, 2)]) = flat_series @ [(99 / 2, 2)]"
    by (rule sort_key_id_if_sorted) (rule flat_sorted)
  have keep: "filter (\<lambda>(t, f). \<bar>f - 1\<bar> < 3 * np_std (replicate 99 1 @ [2]))
                (flat_series @ [(99 / 2, 2)]) = flat_series"
    unfolding clip_iff flat_var
    using flat_constant by (auto simp: filter_id_conv power2_eq_square)
  have "preprocess_lightcurve flat_rows
          = filter (\<lambda>(t, f). \<bar>f - 1\<bar> < 3 * np_std (replicate 99 1 @ [2]))
              (flat_series @ [(99 / 2, 2)])"
    by (simp add: preprocess_lightcurve_def flat_rows_def finite_rows_as_raw srt flat_flux
          flat_median normalize_by_one del: map_append filter_append)
  then show ?thesis by (simp only: keep)
qed

lemma flat_powers: "\<forall>g \<in> set (grid self). grid_power flat_series g = 0"
  using grid_power_constant_flux [OF flat_constant] by simp

lemma flat_length [simp]: "length flat_series = 99"
  by (simp add: flat_series_def)

section \<open>The result of the search\<close>

text \<open>
  C7, as stated, fails: the search does not always return a grid point. On the 99 rows
  of constant flux every grid point has power 0, no point is strictly better than the
  start value, and the result has period 0, which is not a period of the grid.
\<close>

theorem bls_fallback_counterexample:
  "box_least_squares init flat_series
     = \<lparr>bls_period = 0, bls_power = 0, bls_t0 = 0, bls_duration = 0\<rparr>
   \<and> bls_period (box_least_squares init flat_series) \<notin> set (periods init)"
proof -
  have "box_least_squares init flat_series = bls_start"
    using flat_powers by (rule bls_all_zero)
  moreover have "0 \<notin> set (periods init)"
    using periods_positive [of 0 init] by auto
  ultimately show ?thesis by (simp add: bls_start_def)
qed

text \<open>
  C7, amended: for a detector with \<open>0 < min_period \<le> max_period\<close>, either every grid
  point has power 0 and the search returns the start value (period, power, t0 and
  duration all 0), or it returns the first grid point, in the order of traversal
  (periods ascending, then duration fractions, then phase offsets), whose power is
  positive and maximal over the whole grid. Every grid point visited later has a
  period at least as large, so among grid points that tie on the maximal power the one
  with the smallest period is returned; on a tie within one period the order of
  traversal decides.
\<close>

theorem bls_first_maximum:
  assumes "0 < min_period self" and "min_period self \<le> max_period self"
  shows "(box_least_squares self series = bls_start
            \<and> (\<forall>g \<in> set (grid self). grid_power series g = 0))
       \<or> (\<exists>pre g post. grid self = pre @ g # post
             \<and> box_least_squares self series = candidate series g
             \<and> 0 < grid_power series g
             \<and> (\<forall>h \<in> set pre. grid_power series h < grid_power series g)
             \<and> (\<forall>h \<in> set post. grid_power series h \<le> grid_power series g
                                \<and> fst g \<le> fst h)
             \<and> (\<forall>h \<in> set (grid self).
                    grid_power series h = grid_power series g \<longrightarrow> fst g \<le> fst h))"
proof -
  from scan_first_max [of series bls_start "grid self"]
  show ?thesis
  proof (elim disjE conjE exE)
    assume "foldl (bls_step series) bls_start (grid self) = bls_start"
      and "\<forall>g \<in> set (grid self). grid_power series g \<le> bls_power bls_start"
    then have "box_least_squares self series = bls_start"
      and "\<forall>g \<in> set (grid self). grid_power series g = 0"
      using grid_power_nonneg [of series]
      by (auto simp: box_least_squares_scan bls_start_def order_antisym)
    then show ?thesis by blast
  next
    fix pre g post
    assume split: "grid self = pre @ g # post"
      and res: "foldl (bls_step series) bls_start (grid self) = candidate series g"
      and gt: "bls_power bls_start < grid_power series g"
      and before: "\<forall>h \<in> set pre. grid_power series h < grid_power series g"
      and after: "\<forall>h \<in> set post. grid_power series h \<le> grid_power series g"
    have "sorted (map fst (pre @ g # post))"
      using grid_sorted [OF assms] by (simp add: split)
    then have later: "\<forall>h \<in> set post. fst g \<le> fst h"
      by (auto simp: sorted_append)
    have ties: "\<forall>h \<in> set (grid self).
                  grid_power series h = grid_power series g \<longrightarrow> fst g \<le> fst h"
    proof (intro ballI impI)
      fix h
      assume "h \<in> set (grid self)" and eq: "grid_power series h = grid_power series g"
      then have "h \<in> set pre \<or> h = g \<or> h \<in> set post" by (auto simp: split)
      then show "fst g \<le> fst h"
        using before later eq by auto
    qed
    have "0 < grid_power series g" using gt by (simp add: bls_start_def)
    moreover have "box_least_squares self series = candidate series g"
      using res by (simp add: box_least_squares_scan)
    ultimately show ?thesis using split before after later ties by blast
  qed
qed

theorem bls_first_maximum_witness:
  "0 < min_period init \<and> min_period init \<le> max_period init
   \<and> (\<exists>pre g post. grid init = pre @ g # post
         \<and> box_least_squares init transit_series = candidate transit_series g
         \<and> 7 \<le> grid_power transit_series g)"
proof -
  have a: "0 < min_period init" and b: "min_period init \<le> max_period init"
    by (simp_all add: init_def)
  have "\<not> (\<forall>g \<in> set (grid init). grid_power transit_series g = 0)"
    using transit_grid_point transit_grid_power by force
  with bls_first_maximum [OF a b, of transit_series]
  obtain pre g post where g: "grid init = pre @ g # post"
      "box_least_squares init transit_series = candidate transit_series g"
    by blast
  have "7 \<le> grid_power transit_series g"
    using transit_bls_power g(2) by simp
  with a b g show ?thesis by blast
qed

text \<open>
  C10: if every grid point has power 0, the search returns the candidate with period,
  power, t0 and duration all 0, whose period lies outside \<open>[min_period, max_period]\<close>
  (for \<open>min_period > 0\<close>); a run of the pipeline that reaches the search (at least 100
  rows, at least 50 cleaned points) with \<open>detection_threshold > 0\<close> then rejects with
  confidence 15 and reports \<open>best_period = 0\<close> and \<open>bls_power = 0\<close> in the analysis
  object.
\<close>

theorem bls_fallback_rejected:
  fixes minimize :: minimizer and self :: detector and data :: "(npfloat \<times> npfloat) list"
  defines "series \<equiv> preprocess_lightcurve data"
  defines "r \<equiv> fst (analyze_lightcurve minimize self (Rows data))"
  assumes "\<forall>g \<in> set (grid self). grid_power series g = 0"
    and "0 < min_period self" and "0 < detection_threshold self"
    and "100 \<le> length data" and "50 \<le> length series"
  shows "box_least_squares self series
           = \<lparr>bls_period = 0, bls_power = 0, bls_t0 = 0, bls_duration = 0\<rparr>
       \<and> \<not> (min_period self \<le> bls_period (box_least_squares self series)
            \<and> bls_period (box_least_squares self series) \<le> max_period self)
       \<and> get r ''planet_detected'' = Some (JBool False)
       \<and> get r ''confidence'' = Some (jreal 15)
       \<and> get_in r ''analysis'' ''best_period'' = Some (jreal 0)
       \<and> get_in r ''analysis'' ''bls_power'' = Some (jreal 0)"
proof -
  have fb: "box_least_squares self series = bls_start"
    using assms(3) by (rule bls_all_zero)
  then have "bls_power (box_least_squares self (preprocess_lightcurve data))
               < detection_threshold self"
    using assms(5) by (simp add: series_def bls_start_def)
  then have "r = no_signal_result bls_start"
    using assms(6,7) fb unfolding r_def series_def by (simp add: analyze_no_signal)
  then show ?thesis
    using fb assms(4) by (simp add: get_no_signal bls_start_def)
qed

theorem bls_fallback_rejected_witness:
  "0 < min_period init \<and> 0 < detection_threshold init
   \<and> 100 \<le> length flat_rows \<and> 50 \<le> length (preprocess_lightcurve flat_rows)
   \<and> box_least_squares init (preprocess_lightcurve flat_rows)
       = \<lparr>bls_period = 0, bls_power = 0, bls_t0 = 0, bls_duration = 0\<rparr>
   \<and> get (fst (analyze_lightcurve (fixed_minimizer (0, 1, 0, 0)) init (Rows flat_rows)))
        ''confidence'' = Some (jreal 15)
   \<and> get_in (fst (analyze_lightcurve (fixed_minimizer (0, 1, 0, 0)) init (Rows flat_rows)))
        ''analysis'' ''best_period'' = Some (jreal 0)"
proof -
  have a: "\<forall>g \<in> set (grid init). grid_power (preprocess_lightcurve flat_rows) g = 0"
    unfolding preprocess_flat by (rule flat_powers)
  have b: "0 < min_period init" "0 < detection_threshold init"
    by (simp_all add: init_def)
  have c: "100 \<le> length flat_rows" "50 \<le> length (preprocess_lightcurve flat_rows)"
    by (simp_all add: preprocess_flat) (simp add: flat_rows_def)
  from bls_fallback_rejected [OF a b c, of "fixed_minimizer (0, 1, 0, 0)"] b c
  show ?thesis by simp
qed

section \<open>The decision of the pipeline\<close>

text \<open>
  C1: for every input that passes preprocessing (at least 100 rows, at least 50
  cleaned points), \<open>planet_detected\<close> is true if and only if the BLS power reaches the
  detection threshold, the transit fit succeeds, and the significance stage yields
  \<open>snr > 5\<close> and \<open>confidence_percent > 70\<close>. If the BLS power is below the threshold the
  result has \<open>planet_detected = false\<close>, confidence 15 and the message
  \<^verbatim>\<open>No significant periodic signal detected\<close>; if the fit fails it has
  \<open>planet_detected = false\<close> and confidence 25.
\<close>

theorem planet_detected_iff:
  fixes minimize :: minimizer and self :: detector and data :: "(npfloat \<times> npfloat) list"
  defines "series \<equiv> preprocess_lightcurve data"
  defines "bls \<equiv> box_least_squares self series"
  defines "fit \<equiv> fit_transit_model minimize self series
                    (bls_period bls) (bls_t0 bls) (bls_duration bls)"
  defines "r \<equiv> fst (analyze_lightcurve minimize self (Rows data))"
  assumes "100 \<le> length data" and "50 \<le> length series"
  shows "(get r ''planet_detected'' = Some (JBool True) \<longleftrightarrow>
            detection_threshold self \<le> bls_power bls
            \<and> (\<exists>f sig. fit = Inr (Some f)
                  \<and> calculate_detection_significance (zip (map snd series) (model_flux f))
                      = Inr sig
                  \<and> np_gt (snr sig) 5 \<and> 70 < confidence_percent sig))
       \<and> (bls_power bls < detection_threshold self \<longrightarrow>
            get r ''planet_detected'' = Some (JBool False)
            \<and> get r ''confidence'' = Some (jreal 15)
            \<and> get_in r ''analysis'' ''message''
                = Some (JStr ''No significant periodic signal detected''))
       \<and> (detection_threshold self \<le> bls_power bls \<and> fit = Inr None \<longrightarrow>
            get r ''planet_detected'' = Some (JBool False)
            \<and> get r ''confidence'' = Some (jreal 25))"
proof -
  have ne: "series \<noteq> []" using assms(6) by auto
  show ?thesis
  proof (cases "bls_power bls < detection_threshold self")
    case True
    then have "r = no_signal_result bls"
      using assms(5,6) unfolding r_def bls_def series_def
      by (simp add: analyze_no_signal)
    with True show ?thesis by (simp add: get_no_signal)
  next
    case False
    from fit_cases [OF ne, of minimize self "bls_period bls" "bls_t0 bls" "bls_duration bls"]
    show ?thesis
    proof (elim disjE exE conjE)
      assume none: "fit_transit_model minimize self series
                      (bls_period bls) (bls_t0 bls) (bls_duration bls) = Inr None"
      then have "r = fit_failed_result"
        using assms(5,6) False unfolding r_def bls_def series_def
        by (simp add: analyze_fit_failed)
      with False none show ?thesis by (simp add: get_fit_failed fit_def)
    next
      fix f
      assume some: "fit_transit_model minimize self series
                      (bls_period bls) (bls_t0 bls) (bls_duration bls) = Inr (Some f)"
        and len: "length (model_flux f) = length series"
      have "zip (map snd series) (model_flux f) \<noteq> []"
        using ne len by (cases series; cases "model_flux f") auto
      then obtain sig where sig: "calculate_detection_significance
                                    (zip (map snd series) (model_flux f)) = Inr sig"
        using significance_defined by blast
      have "r = final_result bls f (calculate_planet_properties (fit_depth f) (fit_period f) 1) sig"
        using assms(5,6) False some sig unfolding r_def bls_def series_def
        by (simp add: analyze_fitted)
      with False some sig show ?thesis by (simp add: get_final fit_def)
    qed
  qed
qed

theorem planet_detected_iff_witness:
  "100 \<le> length transit_rows \<and> 50 \<le> length (preprocess_lightcurve transit_rows)
   \<and> get (fst (analyze_lightcurve (fixed_minimizer (1 / 100, 1 / 2, 0, 1 / 10)) init
               (Rows transit_rows))) ''planet_detected'' = Some (JBool True)"
proof -
  let ?bls = "box_least_squares init (preprocess_lightcurve transit_rows)"
  obtain f where fit: "fit_transit_model (fixed_minimizer (1 / 100, 1 / 2, 0, 1 / 10)) init
                         (preprocess_lightcurve transit_rows)
                         (bls_period ?bls) (bls_t0 ?bls) (bls_duration ?bls) = Inr (Some f)"
    and model: "model_flux f = replicate 20 (99 / 100) @ replicate 80 1"
    using fit_fixed [OF transit_nonempty] transit_model_true
    by (metis preprocess_transit)
  obtain sig where "calculate_detection_significance
                      (zip (map snd (preprocess_lightcurve transit_rows)) (model_flux f)) = Inr sig"
    and "np_gt (snr sig) 5" and "70 < confidence_percent sig"
    using transit_significance by (auto simp: preprocess_transit model)
  with fit transit_gate
    planet_detected_iff [OF transit_rows_length transit_cleaned_length,
      of "fixed_minimizer (1 / 100, 1 / 2, 0, 1 / 10)" init]
  have "get (fst (analyze_lightcurve (fixed_minimizer (1 / 100, 1 / 2, 0, 1 / 10)) init
               (Rows transit_rows))) ''planet_detected'' = Some (JBool True)"
    by blast
  then show ?thesis
    using transit_rows_length transit_cleaned_length by blast
qed

text \<open>
  C6, as stated, fails in the text of the error: 100 rows without a finite time pass
  the check on the number of rows, none survives cleaning, and the error message is
  \<^verbatim>\<open>Too few valid data points after preprocessing\<close>, not \<^verbatim>\<open>Insufficient data points...\<close>.
\<close>

theorem too_few_message_counterexample:
  "analyze_lightcurve (fixed_minimizer (0, 1, 0, 0)) init (Rows (replicate 100 (NaN, NaN)))
     = (error_result ''Too few valid data points after preprocessing'', [Preprocess])"
  by (simp add: analyze_lightcurve_def Let_def preprocess_lightcurve_def finite_rows_all_nan)

text \<open>
  C6, amended: for every input whose cleaned series has fewer than 50 points the
  pipeline returns an error result and never calls the BLS search. The message is
  \<^verbatim>\<open>Insufficient data points. Need at least 100 measurements.\<close> when fewer than 100 rows
  were parsed, and \<^verbatim>\<open>Too few valid data points after preprocessing\<close> otherwise.
\<close>

theorem too_few_cleaned_points:
  assumes "length (preprocess_lightcurve data) < 50"
  shows "fst (analyze_lightcurve minimize self (Rows data))
           = error_result (if length data < 100
                           then ''Insufficient data points. Need at least 100 measurements.''
                           else ''Too few valid data points after preprocessing'')
       \<and> BLS_search \<notin> set (snd (analyze_lightcurve minimize self (Rows data)))"
  using assms by (simp add: analyze_lightcurve_def Let_def)

theorem too_few_cleaned_points_witness:
  "length (preprocess_lightcurve (replicate 120 (PosInf, Finite 1))) < 50
   \<and> fst (analyze_lightcurve (fixed_minimizer (0, 1, 0, 0)) init
            (Rows (replicate 120 (PosInf, Finite 1))))
       = error_result ''Too few valid data points after preprocessing''
   \<and> BLS_search \<notin> set (snd (analyze_lightcurve (fixed_minimizer (0, 1, 0, 0)) init
                                (Rows (replicate 120 (PosInf, Finite 1)))))"
proof -
  have "length (preprocess_lightcurve (replicate 120 (PosInf, Finite 1))) < 50"
    by (simp add: preprocess_lightcurve_def finite_rows_all_inf)
  from this too_few_cleaned_points [OF this, of "fixed_minimizer (0, 1, 0, 0)" init]
  show ?thesis by simp
qed




end
